theory Spec2Isabelle
  imports Main "HOL-Library.AList"
begin

section \<open>The SFU signalling server (server.js) as a state machine\<close>

text \<open>
  The server keeps four module-level variables (\<open>broadcasterPeer\<close>, \<open>broadcasterWs\<close>,
  \<open>viewerPeers\<close>, \<open>pendingCandidates\<close>) and one timer variable, and reacts to events of two
  external libraries: the WebSocket server (connection, message, close) and the WebRTC
  peer connection (track, icecandidate, state changes), plus the timeout it arms itself.

  The embedding is a state record, one HOL function per source function or handler, and a
  \<open>step\<close> function over events. The external libraries are modelled by
  \<^item> a store of peer connections (\<open>pcs\<close>, handles are indices below \<open>next_pc\<close>), each with
    the fields the server reads or changes, and two histories that exist only in the model:
    \<open>iceCalls\<close> (every \<open>addIceCandidate\<close> invocation, in order) and \<open>iceAdded\<close> (those that
    did not throw);
  \<^item> a table of WebSocket connections with their \<open>readyState\<close> and the closure variables
    \<open>role\<close> and \<open>viewerId\<close> of the connection handler;
  \<^item> the set of pending timeouts, the console output and the messages handed to \<open>ws.send\<close>;
  \<^item> a record \<open>world\<close> that decides, for each fallible library call, whether it throws
    (\<open>Some message\<close> or \<open>Inl message\<close>) or succeeds. It is a parameter of every step, so
    each step may be taken under a different one.

  The repository holds two variants of the server. The model follows \<open>server.js\<close>, which
  reserves a send-only transceiver for each viewer and substitutes tracks with
  \<open>replaceTrack\<close>; the other variant (\<open>addTrack\<close> and a renegotiation offer on every track)
  is not modelled.

  Assumptions of the model, all about code outside this repository: a handler runs to
  completion before the next event is handled (the \<open>await\<close> points are not interleaving
  points); \<open>new RTCPeerConnection\<close>, \<open>addTransceiver\<close>, \<open>getSenders\<close> and \<open>close\<close> do not
  throw; a call that throws leaves the peer connection as it was; a closed socket dispatches
  no further events; a closed peer connection dispatches no track and no candidate events,
  but it may still dispatch \<open>iceconnectionstatechange\<close> and \<open>connectionstatechange\<close> with the
  state \<open>closed\<close> (the library reports \<open>close\<close> this way, after the code that called
  \<open>close\<close> has run on), and the model does not bound how often. The \<open>then\<close>/\<open>catch\<close> continuations of
  \<open>replaceTrack\<close> are run where the call is made. Identifiers, session descriptions and
  candidates are strings. Not modelled: the HTTP routes, the ping interval, the two periodic
  loggers, shutdown, the time stamp that \<open>log\<close> prints, and the stack trace in the two lines
  that the process-level handlers print for a TypeError.
\<close>

subsection \<open>Data\<close>

type_synonym ws_id = nat
type_synonym pc_id = nat
type_synonym timer_id = nat
type_synonym sdp = string
type_synonym candidate = string

record track =
  track_id :: nat
  kind :: string

record transceiver =
  tr_kind :: string
  direction :: string
  sender_track :: "track option"

text \<open>The event handlers installed on a peer connection, with the variables they capture.\<close>

datatype handlers = NoHandlers | BroadcasterHandlers ws_id | ViewerHandlers string ws_id

record pc_state =
  handlers :: handlers
  closed :: bool
  localDescription :: "sdp option"
  remoteDescription :: "sdp option"
  transceivers :: "transceiver list"
  iceCalls :: "candidate list"
  iceAdded :: "candidate list"
  iceConnectionState :: string
  connectionState :: string

text \<open>The objects passed to \<open>safeSend\<close>, one constructor per shape of the source.\<close>

datatype json =
    ViewerCountMsg nat
  | OfferMsg "sdp option"
  | AnswerMsg "sdp option"
  | CandidateMsg candidate
  | RegisteredBroadcaster nat
  | RegisteredViewer string
  | BroadcasterDisconnected bool

text \<open>
  An inbound message after \<open>JSON.parse\<close>. A field that is absent is the empty string: the
  server only compares \<open>type\<close> and \<open>role\<close> with literals and tests \<open>viewerId\<close> for
  truthiness, and passes the other three on unread.
\<close>

record msg =
  m_type :: string
  m_role :: string
  m_viewerId :: string
  m_offer :: sdp
  m_answer :: sdp
  m_candidate :: candidate

datatype raw = Malformed | JsonNull | Json msg

datatype level = Info | Warn | Err | Success

record broadcaster_peer =
  bp_ws :: ws_id
  bp_pc :: pc_id
  videoTrack :: "track option"

record viewer_peer =
  vp_ws :: ws_id
  vp_pc :: pc_id

record conn =
  role :: "string option"
  viewerId :: "string option"
  readyState :: nat

record world =
  createOffer_res :: "pc_state \<Rightarrow> bool \<Rightarrow> string + sdp"
  createAnswer_res :: "pc_state \<Rightarrow> string + sdp"
  setLocalDescription_res :: "pc_state \<Rightarrow> sdp \<Rightarrow> string option"
  setRemoteDescription_res :: "pc_state \<Rightarrow> sdp \<Rightarrow> string option"
  addIceCandidate_res :: "pc_state \<Rightarrow> candidate \<Rightarrow> string option"
  replaceTrack_res :: "pc_state \<Rightarrow> track \<Rightarrow> string option"
  send_res :: "ws_id \<Rightarrow> json \<Rightarrow> string option"
  randomUUID :: string

record state =
  broadcasterPeer :: "broadcaster_peer option"
  broadcasterWs :: "ws_id option"
  viewerPeers :: "(string \<times> viewer_peer) list"
  pendingCandidates :: "string \<rightharpoonup> candidate list"
  broadcasterTimeoutTimer :: "timer_id option"
  conns :: "ws_id \<Rightarrow> conn"
  next_ws :: nat
  pcs :: "pc_id \<Rightarrow> pc_state"
  next_pc :: nat
  timers :: "timer_id \<rightharpoonup> nat"
  next_timer :: nat
  onended :: "track set"
  console :: "(level \<times> string) list"
  sent :: "(ws_id \<times> json) list"

definition BROADCASTER_TIMEOUT :: nat where
  "BROADCASTER_TIMEOUT = 30000"

definition blank_pc :: pc_state where
  "blank_pc = \<lparr>handlers = NoHandlers, closed = False, localDescription = None,
     remoteDescription = None, transceivers = [], iceCalls = [], iceAdded = [],
     iceConnectionState = ''new'', connectionState = ''new''\<rparr>"

definition blank_conn :: conn where
  "blank_conn = \<lparr>role = None, viewerId = None, readyState = 0\<rparr>"

definition init_state :: state where
  "init_state = \<lparr>broadcasterPeer = None, broadcasterWs = None, viewerPeers = [],
     pendingCandidates = Map.empty, broadcasterTimeoutTimer = None,
     conns = (\<lambda>_. blank_conn), next_ws = 0, pcs = (\<lambda>_. blank_pc), next_pc = 0,
     timers = Map.empty, next_timer = 0, onended = {}, console = [], sent = []\<rparr>"

subsection \<open>Helpers of the source\<close>

text \<open>Decimal rendering of a number inside a template literal.\<close>

definition digit :: "nat \<Rightarrow> char" where
  "digit n = ''0123456789'' ! (n mod 10)"

fun string_of_nat :: "nat \<Rightarrow> string" where
  "string_of_nat n = (if n < 10 then [digit n] else string_of_nat (n div 10) @ [digit (n mod 10)])"

declare string_of_nat.simps [simp del]

definition log :: "string \<Rightarrow> level \<Rightarrow> state \<Rightarrow> state" where
  "log m lvl s = s\<lparr>console := console s @ [(lvl, m)]\<rparr>"

definition safeSend :: "world \<Rightarrow> ws_id option \<Rightarrow> json \<Rightarrow> state \<Rightarrow> state" where
  "safeSend w ws data s =
     (case ws of None \<Rightarrow> s
      | Some c \<Rightarrow>
          if readyState (conns s c) = 1 then
            (case send_res w c data of
               None \<Rightarrow> s\<lparr>sent := sent s @ [(c, data)]\<rparr>
             | Some e \<Rightarrow> log (''send error: '' @ e) Err s)
          else s)"

definition notifyViewerCount :: "world \<Rightarrow> state \<Rightarrow> state" where
  "notifyViewerCount w s =
     safeSend w (broadcasterWs s) (ViewerCountMsg (length (viewerPeers s))) s"

definition notifyAllViewers :: "world \<Rightarrow> json \<Rightarrow> state \<Rightarrow> state" where
  "notifyAllViewers w data s =
     fold (\<lambda>(_, peer). safeSend w (Some (vp_ws peer)) data) (viewerPeers s) s"

subsection \<open>The peer connection\<close>

definition upd_pc :: "pc_id \<Rightarrow> (pc_state \<Rightarrow> pc_state) \<Rightarrow> state \<Rightarrow> state" where
  "upd_pc p f s = s\<lparr>pcs := (pcs s)(p := f (pcs s p))\<rparr>"

definition new_pc :: "handlers \<Rightarrow> state \<Rightarrow> pc_id \<times> state" where
  "new_pc h s =
     (next_pc s,
      s\<lparr>pcs := (pcs s)(next_pc s := blank_pc\<lparr>handlers := h\<rparr>), next_pc := Suc (next_pc s)\<rparr>)"

definition close_pc :: "pc_id \<Rightarrow> state \<Rightarrow> state" where
  "close_pc p s =
     upd_pc p (\<lambda>x. x\<lparr>closed := True, iceConnectionState := ''closed'',
                    connectionState := ''closed''\<rparr>) s"

definition addTransceiver_kind :: "pc_id \<Rightarrow> string \<Rightarrow> string \<Rightarrow> state \<Rightarrow> state" where
  "addTransceiver_kind p k d s =
     upd_pc p (\<lambda>x. x\<lparr>transceivers := transceivers x @
                    [\<lparr>tr_kind = k, direction = d, sender_track = None\<rparr>]\<rparr>) s"

definition addTransceiver_track :: "pc_id \<Rightarrow> track \<Rightarrow> string \<Rightarrow> state \<Rightarrow> state" where
  "addTransceiver_track p t d s =
     upd_pc p (\<lambda>x. x\<lparr>transceivers := transceivers x @
                    [\<lparr>tr_kind = kind t, direction = d, sender_track = Some t\<rparr>]\<rparr>) s"

definition setLocalDescription :: "world \<Rightarrow> pc_id \<Rightarrow> sdp \<Rightarrow> state \<Rightarrow> state \<times> string option" where
  "setLocalDescription w p d s =
     (case setLocalDescription_res w (pcs s p) d of
        Some e \<Rightarrow> (s, Some e)
      | None \<Rightarrow> (upd_pc p (\<lambda>x. x\<lparr>localDescription := Some d\<rparr>) s, None))"

definition setRemoteDescription :: "world \<Rightarrow> pc_id \<Rightarrow> sdp \<Rightarrow> state \<Rightarrow> state \<times> string option" where
  "setRemoteDescription w p d s =
     (case setRemoteDescription_res w (pcs s p) d of
        Some e \<Rightarrow> (s, Some e)
      | None \<Rightarrow> (upd_pc p (\<lambda>x. x\<lparr>remoteDescription := Some d\<rparr>) s, None))"

text \<open>\<open>try { await pc.addIceCandidate(new RTCIceCandidate(c)); } catch (e) {}\<close>\<close>

definition tryAddIceCandidate :: "world \<Rightarrow> pc_id \<Rightarrow> candidate \<Rightarrow> state \<Rightarrow> state" where
  "tryAddIceCandidate w p c s =
     upd_pc p (\<lambda>x. case addIceCandidate_res w x c of
                     None \<Rightarrow> x\<lparr>iceCalls := iceCalls x @ [c], iceAdded := iceAdded x @ [c]\<rparr>
                   | Some e \<Rightarrow> x\<lparr>iceCalls := iceCalls x @ [c]\<rparr>) s"

text \<open>\<open>senders.find(s => s.track === null || (s.track && s.track.kind === "video"))\<close>,
  as the index of the sender found.\<close>

definition sender_matches :: "transceiver \<Rightarrow> bool" where
  "sender_matches tr = (case sender_track tr of None \<Rightarrow> True | Some t \<Rightarrow> kind t = ''video'')"

fun find_sender :: "transceiver list \<Rightarrow> nat option" where
  "find_sender [] = None"
| "find_sender (x # xs) = (if sender_matches x then Some 0 else map_option Suc (find_sender xs))"

fun set_track :: "nat \<Rightarrow> track \<Rightarrow> transceiver list \<Rightarrow> transceiver list" where
  "set_track _ _ [] = []"
| "set_track 0 t (x # xs) = x\<lparr>sender_track := Some t\<rparr> # xs"
| "set_track (Suc n) t (x # xs) = x # set_track n t xs"

definition replaceTrack :: "world \<Rightarrow> pc_id \<Rightarrow> nat \<Rightarrow> track \<Rightarrow> state \<Rightarrow> state \<times> string option" where
  "replaceTrack w p i t s =
     (case replaceTrack_res w (pcs s p) t of
        Some e \<Rightarrow> (s, Some e)
      | None \<Rightarrow> (upd_pc p (\<lambda>x. x\<lparr>transceivers := set_track i t (transceivers x)\<rparr>) s, None))"

subsection \<open>Functions of server.js\<close>

definition cleanupViewer :: "world \<Rightarrow> string \<Rightarrow> state \<Rightarrow> state" where
  "cleanupViewer w vid s =
     (case map_of (viewerPeers s) vid of
        None \<Rightarrow> s
      | Some peer \<Rightarrow>
          let s1 = close_pc (vp_pc peer) s;
              s2 = s1\<lparr>viewerPeers := AList.delete vid (viewerPeers s1)\<rparr>;
              s3 = s2\<lparr>pendingCandidates := (pendingCandidates s2)(vid := None)\<rparr>;
              s4 = log (''Viewer '' @ vid @ '' cleaned up (remaining: '' @
                        string_of_nat (length (viewerPeers s3)) @ '')'') Info s3
          in notifyViewerCount w s4)"

definition cleanupBroadcaster :: "state \<Rightarrow> state" where
  "cleanupBroadcaster s =
     (case broadcasterPeer s of
        None \<Rightarrow> s
      | Some b \<Rightarrow>
          log ''Broadcaster cleaned up'' Warn
            ((close_pc (bp_pc b) s)\<lparr>broadcasterPeer := None, broadcasterWs := None\<rparr>))"

definition sendOfferToViewer :: "world \<Rightarrow> string \<Rightarrow> state \<Rightarrow> state" where
  "sendOfferToViewer w vid s =
     (case map_of (viewerPeers s) vid of
        None \<Rightarrow> s
      | Some peer \<Rightarrow>
          (case createOffer_res w (pcs s (vp_pc peer)) False of
             Inl e \<Rightarrow>
               cleanupViewer w vid (log (''createOffer error ['' @ vid @ '']: '' @ e) Err s)
           | Inr offer \<Rightarrow>
               (case setLocalDescription w (vp_pc peer) offer s of
                  (s1, Some e) \<Rightarrow>
                    cleanupViewer w vid (log (''createOffer error ['' @ vid @ '']: '' @ e) Err s1)
                | (s1, None) \<Rightarrow>
                    log (''Offer sent to viewer '' @ vid) Success
                      (safeSend w (Some (vp_ws peer))
                         (OfferMsg (localDescription (pcs s1 (vp_pc peer)))) s1))))"

definition restartViewerIce :: "world \<Rightarrow> string \<Rightarrow> state \<Rightarrow> state" where
  "restartViewerIce w vid s =
     (case map_of (viewerPeers s) vid of
        None \<Rightarrow> s
      | Some peer \<Rightarrow>
          (case createOffer_res w (pcs s (vp_pc peer)) True of
             Inl e \<Rightarrow> log (''ICE restart error ['' @ vid @ '']: '' @ e) Err s
           | Inr offer \<Rightarrow>
               (case setLocalDescription w (vp_pc peer) offer s of
                  (s1, Some e) \<Rightarrow> log (''ICE restart error ['' @ vid @ '']: '' @ e) Err s1
                | (s1, None) \<Rightarrow>
                    log (''ICE restart offer sent to '' @ vid) Info
                      (safeSend w (Some (vp_ws peer))
                         (OfferMsg (localDescription (pcs s1 (vp_pc peer)))) s1))))"

text \<open>The \<open>if (broadcasterPeer?.videoTrack) ... else ...\<close> of \<open>createViewerPeer\<close>.\<close>

definition attach_track :: "string \<Rightarrow> pc_id \<Rightarrow> state \<Rightarrow> state" where
  "attach_track vid pc s =
     (case broadcasterPeer s of
        None \<Rightarrow> addTransceiver_kind pc ''video'' ''sendonly'' s
      | Some b \<Rightarrow>
          (case videoTrack b of
             None \<Rightarrow> addTransceiver_kind pc ''video'' ''sendonly'' s
           | Some t \<Rightarrow>
               log (''Added existing video track to viewer '' @ vid) Info
                 (addTransceiver_track pc t ''sendonly'' s)))"

definition createViewerPeer :: "world \<Rightarrow> string \<Rightarrow> ws_id \<Rightarrow> state \<Rightarrow> state" where
  "createViewerPeer w vid ws s =
     (let s1 = cleanupViewer w vid s;
          s2 = log (''Creating viewer peer: '' @ vid) Info s1;
          (pc, s3) = new_pc (ViewerHandlers vid ws) s2;
          s4 = s3\<lparr>viewerPeers := AList.update vid \<lparr>vp_ws = ws, vp_pc = pc\<rparr> (viewerPeers s3)\<rparr>;
          s5 = attach_track vid pc s4
      in sendOfferToViewer w vid s5)"

definition createBroadcasterPeer :: "ws_id \<Rightarrow> state \<Rightarrow> state" where
  "createBroadcasterPeer ws s =
     (let s1 = cleanupBroadcaster s;
          s2 = log ''Creating broadcaster peer (server-side receiver)'' Info s1;
          (pc, s3) = new_pc (BroadcasterHandlers ws) s2;
          s4 = s3\<lparr>broadcasterPeer := Some \<lparr>bp_ws = ws, bp_pc = pc, videoTrack = None\<rparr>,
                  broadcasterWs := Some ws\<rparr>
      in addTransceiver_kind pc ''video'' ''recvonly'' s4)"

subsection \<open>Event handlers of the broadcaster's peer connection\<close>

text \<open>The body of the loop of \<open>pc.ontrack\<close> for one entry of \<open>viewerPeers\<close>.\<close>

definition ontrack_viewer :: "world \<Rightarrow> track \<Rightarrow> string \<times> viewer_peer \<Rightarrow> state \<Rightarrow> state" where
  "ontrack_viewer w t e s =
     (case e of (vid, peer) \<Rightarrow>
        (case find_sender (transceivers (pcs s (vp_pc peer))) of
           None \<Rightarrow> s
         | Some i \<Rightarrow>
             (case replaceTrack w (vp_pc peer) i t s of
                (s1, None) \<Rightarrow> log (''Track forwarded to viewer '' @ vid) Success s1
              | (s1, Some e) \<Rightarrow> log (''replaceTrack error ['' @ vid @ '']: '' @ e) Err s1)))"

text \<open>
  \<open>pc.ontrack\<close>. The handler reads the module variable \<open>broadcasterPeer\<close>, not the session
  it was created for; with the variable \<open>null\<close> the assignment throws a TypeError, which the
  \<open>uncaughtException\<close> handler logs.
\<close>

definition ontrack :: "world \<Rightarrow> track \<Rightarrow> state \<Rightarrow> state" where
  "ontrack w t s =
     (let s1 = log (''Broadcaster track received: '' @ kind t) Success s in
      if kind t \<noteq> ''video'' then s1
      else
        (case broadcasterPeer s1 of
           None \<Rightarrow> log ''Uncaught: Cannot set properties of null'' Err s1
         | Some b \<Rightarrow>
             let s2 = s1\<lparr>broadcasterPeer := Some (b\<lparr>videoTrack := Some t\<rparr>)\<rparr>;
                 s3 = fold (ontrack_viewer w t) (viewerPeers s2) s2
             in s3\<lparr>onended := insert t (onended s3)\<rparr>))"

text \<open>\<open>track.onended\<close>\<close>

definition track_onended :: "state \<Rightarrow> state" where
  "track_onended s =
     (let s1 = log ''Broadcaster video track ended'' Warn s in
      case broadcasterPeer s1 of
        None \<Rightarrow> s1
      | Some b \<Rightarrow> s1\<lparr>broadcasterPeer := Some (b\<lparr>videoTrack := None\<rparr>)\<rparr>)"

definition onicecandidate :: "world \<Rightarrow> ws_id \<Rightarrow> candidate option \<Rightarrow> state \<Rightarrow> state" where
  "onicecandidate w ws c s =
     (case c of None \<Rightarrow> s | Some x \<Rightarrow> safeSend w (Some ws) (CandidateMsg x) s)"

definition broadcaster_oniceconnectionstatechange :: "pc_id \<Rightarrow> state \<Rightarrow> state" where
  "broadcaster_oniceconnectionstatechange p s =
     log (''Broadcaster ICE: '' @ iceConnectionState (pcs s p)) Info s"

definition broadcaster_onconnectionstatechange :: "world \<Rightarrow> pc_id \<Rightarrow> state \<Rightarrow> state" where
  "broadcaster_onconnectionstatechange w p s =
     (let s1 = log (''Broadcaster conn: '' @ connectionState (pcs s p)) Info s in
      if connectionState (pcs s1 p) = ''failed''
      then notifyAllViewers w (BroadcasterDisconnected False) s1
      else s1)"

subsection \<open>Event handlers of a viewer's peer connection\<close>

definition viewer_oniceconnectionstatechange :: "world \<Rightarrow> string \<Rightarrow> pc_id \<Rightarrow> state \<Rightarrow> state" where
  "viewer_oniceconnectionstatechange w vid p s =
     (let s1 = log (''Viewer '' @ vid @ '' ICE: '' @ iceConnectionState (pcs s p)) Info s in
      if iceConnectionState (pcs s1 p) = ''failed'' then restartViewerIce w vid s1 else s1)"

definition viewer_onconnectionstatechange :: "world \<Rightarrow> string \<Rightarrow> pc_id \<Rightarrow> state \<Rightarrow> state" where
  "viewer_onconnectionstatechange w vid p s =
     (let s1 = log (''Viewer '' @ vid @ '' conn: '' @ connectionState (pcs s p)) Info s in
      if connectionState (pcs s1 p) = ''failed'' \<or> connectionState (pcs s1 p) = ''closed''
      then cleanupViewer w vid s1
      else s1)"

subsection \<open>The message handler of a WebSocket connection\<close>

definition set_conn :: "ws_id \<Rightarrow> (conn \<Rightarrow> conn) \<Rightarrow> state \<Rightarrow> state" where
  "set_conn ws f s = s\<lparr>conns := (conns s)(ws := f (conns s ws))\<rparr>"

text \<open>\<open>clearTimeout\<close> and \<open>setTimeout\<close> of the runtime.\<close>

definition clearTimeout :: "timer_id \<Rightarrow> state \<Rightarrow> state" where
  "clearTimeout t s = s\<lparr>timers := (timers s)(t := None)\<rparr>"

definition setTimeout :: "nat \<Rightarrow> state \<Rightarrow> timer_id \<times> state" where
  "setTimeout delay s =
     (next_timer s,
      s\<lparr>timers := (timers s)(next_timer s \<mapsto> delay), next_timer := Suc (next_timer s)\<rparr>)"

definition on_register_broadcaster :: "world \<Rightarrow> ws_id \<Rightarrow> state \<Rightarrow> state" where
  "on_register_broadcaster w ws s =
     (let s1 = set_conn ws (\<lambda>c. c\<lparr>role := Some ''broadcaster''\<rparr>) s;
          s2 = (case broadcasterTimeoutTimer s1 of
                  None \<Rightarrow> s1
                | Some t \<Rightarrow> (clearTimeout t s1)\<lparr>broadcasterTimeoutTimer := None\<rparr>);
          s3 = log ''Broadcaster registering...'' Info s2;
          s4 = createBroadcasterPeer ws s3
      in safeSend w (Some ws) (RegisteredBroadcaster (length (viewerPeers s4))) s4)"

definition on_register_viewer :: "world \<Rightarrow> ws_id \<Rightarrow> msg \<Rightarrow> state \<Rightarrow> state" where
  "on_register_viewer w ws m s =
     (let vid = (if m_viewerId m \<noteq> [] then m_viewerId m else randomUUID w);
          s1 = set_conn ws (\<lambda>c. c\<lparr>role := Some ''viewer'', viewerId := Some vid\<rparr>) s;
          s2 = log (''Viewer registering: '' @ vid) Info s1;
          s3 = createViewerPeer w vid ws s2;
          s4 = safeSend w (Some ws) (RegisteredViewer vid) s3;
          s5 = notifyViewerCount w s4
      in if broadcasterPeer s5 = None
         then safeSend w (Some ws) (BroadcasterDisconnected False) s5
         else s5)"

definition on_offer :: "world \<Rightarrow> ws_id \<Rightarrow> msg \<Rightarrow> state \<Rightarrow> state" where
  "on_offer w ws m s =
     (case broadcasterPeer s of
        None \<Rightarrow> s
      | Some b \<Rightarrow>
          (case setRemoteDescription w (bp_pc b) (m_offer m) s of
             (s1, Some e) \<Rightarrow> log (''Broadcaster offer error: '' @ e) Err s1
           | (s1, None) \<Rightarrow>
               (case createAnswer_res w (pcs s1 (bp_pc b)) of
                  Inl e \<Rightarrow> log (''Broadcaster offer error: '' @ e) Err s1
                | Inr answer \<Rightarrow>
                    (case setLocalDescription w (bp_pc b) answer s1 of
                       (s2, Some e) \<Rightarrow> log (''Broadcaster offer error: '' @ e) Err s2
                     | (s2, None) \<Rightarrow>
                         log ''Broadcaster offer handled, answer sent'' Success
                           (safeSend w (Some ws)
                              (AnswerMsg (localDescription (pcs s2 (bp_pc b)))) s2)))))"

text \<open>The last block of the answer handler: the track that is there once the answer is in.\<close>

definition late_replace :: "world \<Rightarrow> string \<Rightarrow> viewer_peer \<Rightarrow> state \<Rightarrow> state" where
  "late_replace w vid peer s =
     (case broadcasterPeer s of
        None \<Rightarrow> s
      | Some b \<Rightarrow>
          (case videoTrack b of
             None \<Rightarrow> s
           | Some t \<Rightarrow>
               (case find_sender (transceivers (pcs s (vp_pc peer))) of
                  None \<Rightarrow> s
                | Some i \<Rightarrow>
                    (case replaceTrack w (vp_pc peer) i t s of
                       (s1, None) \<Rightarrow> log (''Late track forwarded to viewer '' @ vid) Success s1
                     | (s1, Some e) \<Rightarrow> log (''Late replaceTrack error: '' @ e) Err s1))))"

text \<open>\<open>pendingCandidates.get(viewerId) || []\<close>\<close>

definition pending_of :: "state \<Rightarrow> string \<Rightarrow> candidate list" where
  "pending_of s vid = (case pendingCandidates s vid of None \<Rightarrow> [] | Some cs \<Rightarrow> cs)"

text \<open>The drain of the answer handler: the loop over the buffered candidates and the
  deletion of the buffer entry.\<close>

definition drain_pending :: "world \<Rightarrow> string \<Rightarrow> pc_id \<Rightarrow> state \<Rightarrow> state" where
  "drain_pending w vid p s =
     (let pending = pending_of s vid;
          s1 = fold (tryAddIceCandidate w p) pending s
      in s1\<lparr>pendingCandidates := (pendingCandidates s1)(vid := None)\<rparr>)"

definition on_answer :: "world \<Rightarrow> ws_id \<Rightarrow> msg \<Rightarrow> state \<Rightarrow> state" where
  "on_answer w ws m s =
     (case viewerId (conns s ws) of
        None \<Rightarrow> s
      | Some vid \<Rightarrow>
          (case map_of (viewerPeers s) vid of
             None \<Rightarrow> s
           | Some peer \<Rightarrow>
               (case setRemoteDescription w (vp_pc peer) (m_answer m) s of
                  (s1, Some e) \<Rightarrow> log (''Viewer answer error ['' @ vid @ '']: '' @ e) Err s1
                | (s1, None) \<Rightarrow>
                    let s2 = log (''Viewer '' @ vid @ '' answer set'') Success s1;
                        s3 = drain_pending w vid (vp_pc peer) s2
                    in late_replace w vid peer s3)))"

text \<open>\<open>if (!pendingCandidates.has(viewerId)) pendingCandidates.set(viewerId, []);
  pendingCandidates.get(viewerId).push(msg.candidate);\<close>\<close>

definition push_pending :: "string \<Rightarrow> candidate \<Rightarrow> state \<Rightarrow> state" where
  "push_pending vid c s =
     s\<lparr>pendingCandidates := (pendingCandidates s)(vid \<mapsto> pending_of s vid @ [c])\<rparr>"

definition on_candidate :: "world \<Rightarrow> ws_id \<Rightarrow> msg \<Rightarrow> state \<Rightarrow> state" where
  "on_candidate w ws m s =
     (if role (conns s ws) = Some ''broadcaster'' \<and> broadcasterPeer s \<noteq> None then
        (case broadcasterPeer s of
           None \<Rightarrow> s
         | Some b \<Rightarrow> tryAddIceCandidate w (bp_pc b) (m_candidate m) s)
      else if role (conns s ws) = Some ''viewer'' then
        (case viewerId (conns s ws) of
           None \<Rightarrow> s
         | Some vid \<Rightarrow>
             if vid = [] then s
             else
               (case map_of (viewerPeers s) vid of
                  None \<Rightarrow> push_pending vid (m_candidate m) s
                | Some peer \<Rightarrow>
                    if remoteDescription (pcs s (vp_pc peer)) \<noteq> None
                    then tryAddIceCandidate w (vp_pc peer) (m_candidate m) s
                    else push_pending vid (m_candidate m) s))
      else s)"

definition on_message :: "world \<Rightarrow> ws_id \<Rightarrow> raw \<Rightarrow> state \<Rightarrow> state" where
  "on_message w ws r s =
     (case r of
        Malformed \<Rightarrow> s
      | JsonNull \<Rightarrow> log ''UnhandledRejection: TypeError: Cannot read properties of null'' Err s
      | Json m \<Rightarrow>
          if m_type m = ''register'' \<and> m_role m = ''broadcaster'' then on_register_broadcaster w ws s
          else if m_type m = ''register'' \<and> m_role m = ''viewer'' then on_register_viewer w ws m s
          else if m_type m = ''offer'' \<and> role (conns s ws) = Some ''broadcaster'' then on_offer w ws m s
          else if m_type m = ''answer'' \<and> role (conns s ws) = Some ''viewer'' then on_answer w ws m s
          else if m_type m = ''candidate'' then on_candidate w ws m s
          else s)"

definition str_or :: "string option \<Rightarrow> string \<Rightarrow> string" where
  "str_or x d = (case x of None \<Rightarrow> d | Some v \<Rightarrow> if v = [] then d else v)"

text \<open>The timeout callback armed by the close handler.\<close>

definition broadcaster_timeout :: "world \<Rightarrow> state \<Rightarrow> state" where
  "broadcaster_timeout w s =
     notifyAllViewers w (BroadcasterDisconnected False)
       (log ''Broadcaster timeout - notifying viewers'' Warn s)"

definition on_close :: "world \<Rightarrow> ws_id \<Rightarrow> state \<Rightarrow> state" where
  "on_close w ws s =
     (let c = conns s ws;
          s1 = log (''WS closed (role: '' @ str_or (role c) ''null'' @ '', id: '' @
                    str_or (viewerId c) ''n/a'' @ '')'') Info s
      in if role c = Some ''broadcaster'' then
           (let s2 = cleanupBroadcaster s1;
                (t, s3) = setTimeout BROADCASTER_TIMEOUT s2
            in s3\<lparr>broadcasterTimeoutTimer := Some t\<rparr>)
         else if role c = Some ''viewer'' then
           (case viewerId c of
              None \<Rightarrow> s1
            | Some vid \<Rightarrow> if vid = [] then s1 else cleanupViewer w vid s1)
         else s1)"

definition on_connection :: "string \<Rightarrow> state \<Rightarrow> state" where
  "on_connection ip s =
     log (''New WS connection from '' @ ip) Info
       (s\<lparr>conns := (conns s)(next_ws s := \<lparr>role = None, viewerId = None, readyState = 1\<rparr>),
          next_ws := Suc (next_ws s)\<rparr>)"

subsection \<open>Events and reachable states\<close>

datatype event =
    Connection string
  | WsMessage ws_id raw
  | WsClose ws_id
  | PcTrack pc_id track
  | TrackEnded track
  | PcIceCandidate pc_id "candidate option"
  | PcIceConnectionState pc_id string
  | PcConnectionState pc_id string
  | TimerFire timer_id

fun enabled :: "state \<Rightarrow> event \<Rightarrow> bool" where
  "enabled s (Connection ip) = True"
| "enabled s (WsMessage ws r) = (ws < next_ws s \<and> readyState (conns s ws) = 1)"
| "enabled s (WsClose ws) = (ws < next_ws s \<and> readyState (conns s ws) = 1)"
| "enabled s (PcTrack p t) = (p < next_pc s \<and> \<not> closed (pcs s p))"
| "enabled s (TrackEnded t) = (t \<in> onended s)"
| "enabled s (PcIceCandidate p c) = (p < next_pc s \<and> \<not> closed (pcs s p))"
| "enabled s (PcIceConnectionState p st) =
     (p < next_pc s \<and> (closed (pcs s p) \<longrightarrow> st = ''closed''))"
| "enabled s (PcConnectionState p st) =
     (p < next_pc s \<and> (closed (pcs s p) \<longrightarrow> st = ''closed''))"
| "enabled s (TimerFire t) = (timers s t \<noteq> None)"

fun step :: "world \<Rightarrow> event \<Rightarrow> state \<Rightarrow> state" where
  "step w (Connection ip) s = on_connection ip s"
| "step w (WsMessage ws r) s = on_message w ws r s"
| "step w (WsClose ws) s = on_close w ws (set_conn ws (\<lambda>c. c\<lparr>readyState := 3\<rparr>) s)"
| "step w (PcTrack p t) s =
     (case handlers (pcs s p) of
        BroadcasterHandlers ws \<Rightarrow> ontrack w t s
      | _ \<Rightarrow> s)"
| "step w (TrackEnded t) s = track_onended (s\<lparr>onended := onended s - {t}\<rparr>)"
| "step w (PcIceCandidate p c) s =
     (case handlers (pcs s p) of
        BroadcasterHandlers ws \<Rightarrow> onicecandidate w ws c s
      | ViewerHandlers vid ws \<Rightarrow> onicecandidate w ws c s
      | NoHandlers \<Rightarrow> s)"
| "step w (PcIceConnectionState p st) s =
     (let s1 = upd_pc p (\<lambda>x. x\<lparr>iceConnectionState := st\<rparr>) s in
      case handlers (pcs s1 p) of
        BroadcasterHandlers ws \<Rightarrow> broadcaster_oniceconnectionstatechange p s1
      | ViewerHandlers vid ws \<Rightarrow> viewer_oniceconnectionstatechange w vid p s1
      | NoHandlers \<Rightarrow> s1)"
| "step w (PcConnectionState p st) s =
     (let s1 = upd_pc p (\<lambda>x. x\<lparr>connectionState := st\<rparr>) s in
      case handlers (pcs s1 p) of
        BroadcasterHandlers ws \<Rightarrow> broadcaster_onconnectionstatechange w p s1
      | ViewerHandlers vid ws \<Rightarrow> viewer_onconnectionstatechange w vid p s1
      | NoHandlers \<Rightarrow> s1)"
| "step w (TimerFire t) s = broadcaster_timeout w (s\<lparr>timers := (timers s)(t := None)\<rparr>)"

inductive reachable :: "state \<Rightarrow> bool" where
  reachable_init: "reachable init_state"
| reachable_step: "reachable s \<Longrightarrow> enabled s e \<Longrightarrow> reachable (step w e s)"

text \<open>Running a list of events from a state, \<open>None\<close> when one of them is not enabled.\<close>

fun run :: "world \<Rightarrow> event list \<Rightarrow> state \<Rightarrow> state option" where
  "run w [] s = Some s"
| "run w (e # es) s = (if enabled s e then run w es (step w e s) else None)"

section \<open>Invariants of the reachable states\<close>

subsection \<open>Vocabulary\<close>

text \<open>
  Two relations between the state before and after an operation. \<open>benign\<close>: the registry, the
  allocation counter and, for each peer connection, its handlers, its closed flag and its
  transceivers are the same. \<open>same_struct\<close>: the same, except that the broadcaster's
  \<open>videoTrack\<close> and the tracks in the senders may differ.
\<close>

definition benign :: "state \<Rightarrow> state \<Rightarrow> bool" where
  "benign s s' \<longleftrightarrow>
     broadcasterPeer s' = broadcasterPeer s \<and> broadcasterWs s' = broadcasterWs s \<and>
     viewerPeers s' = viewerPeers s \<and> next_pc s' = next_pc s \<and>
     (\<forall>p. handlers (pcs s' p) = handlers (pcs s p) \<and> closed (pcs s' p) = closed (pcs s p) \<and>
          transceivers (pcs s' p) = transceivers (pcs s p))"

definition same_struct :: "state \<Rightarrow> state \<Rightarrow> bool" where
  "same_struct s s' \<longleftrightarrow>
     map_option bp_ws (broadcasterPeer s') = map_option bp_ws (broadcasterPeer s) \<and>
     map_option bp_pc (broadcasterPeer s') = map_option bp_pc (broadcasterPeer s) \<and>
     broadcasterWs s' = broadcasterWs s \<and>
     viewerPeers s' = viewerPeers s \<and> next_pc s' = next_pc s \<and>
     (\<forall>p. handlers (pcs s' p) = handlers (pcs s p) \<and> closed (pcs s' p) = closed (pcs s p) \<and>
          map direction (transceivers (pcs s' p)) = map direction (transceivers (pcs s p)))"

text \<open>
  The invariants. \<open>fresh_inv\<close>: handles not yet allocated carry no handlers.
  \<open>bcast_inv\<close>: \<open>broadcasterWs\<close> mirrors \<open>broadcasterPeer\<close>, whose peer connection is open and
  carries the broadcaster handlers, and every open peer connection with broadcaster handlers is
  that one. \<open>viewer_inv\<close>: the keys of \<open>viewerPeers\<close> are distinct, each entry's peer
  connection is open and carries the handlers of that id and socket, and every open peer
  connection with viewer handlers is the entry of its id. \<open>slot_inv\<close>: a viewer's peer
  connection has exactly one transceiver, a send-only one. \<open>video_inv\<close>: \<open>videoTrack\<close> and
  the senders hold video tracks only.
\<close>

definition fresh_inv :: "state \<Rightarrow> bool" where
  "fresh_inv s \<longleftrightarrow> (\<forall>p. next_pc s \<le> p \<longrightarrow> handlers (pcs s p) = NoHandlers)"

definition bcast_inv :: "state \<Rightarrow> bool" where
  "bcast_inv s \<longleftrightarrow>
     (case broadcasterPeer s of
        None \<Rightarrow> broadcasterWs s = None
      | Some b \<Rightarrow> broadcasterWs s = Some (bp_ws b) \<and>
          handlers (pcs s (bp_pc b)) = BroadcasterHandlers (bp_ws b) \<and> \<not> closed (pcs s (bp_pc b))) \<and>
     (\<forall>p ws. handlers (pcs s p) = BroadcasterHandlers ws \<and> \<not> closed (pcs s p) \<longrightarrow>
        map_option bp_pc (broadcasterPeer s) = Some p)"

definition viewer_inv :: "state \<Rightarrow> bool" where
  "viewer_inv s \<longleftrightarrow>
     distinct (map fst (viewerPeers s)) \<and>
     (\<forall>vid peer. map_of (viewerPeers s) vid = Some peer \<longrightarrow>
        handlers (pcs s (vp_pc peer)) = ViewerHandlers vid (vp_ws peer) \<and> \<not> closed (pcs s (vp_pc peer))) \<and>
     (\<forall>p vid ws. handlers (pcs s p) = ViewerHandlers vid ws \<and> \<not> closed (pcs s p) \<longrightarrow>
        map_of (viewerPeers s) vid = Some \<lparr>vp_ws = ws, vp_pc = p\<rparr>)"

definition slot_inv :: "state \<Rightarrow> bool" where
  "slot_inv s \<longleftrightarrow>
     (\<forall>p vid ws. handlers (pcs s p) = ViewerHandlers vid ws \<longrightarrow>
        map direction (transceivers (pcs s p)) = [''sendonly''])"

definition current_track :: "state \<Rightarrow> track option" where
  "current_track s = (case broadcasterPeer s of None \<Rightarrow> None | Some b \<Rightarrow> videoTrack b)"

definition tracks_ok :: "transceiver list \<Rightarrow> bool" where
  "tracks_ok xs \<longleftrightarrow> (\<forall>tr \<in> set xs. \<forall>t. sender_track tr = Some t \<longrightarrow> kind t = ''video'')"

definition video_inv :: "state \<Rightarrow> bool" where
  "video_inv s \<longleftrightarrow>
     (\<forall>t. current_track s = Some t \<longrightarrow> kind t = ''video'') \<and>
     (\<forall>p. tracks_ok (transceivers (pcs s p)))"

definition struct_inv :: "state \<Rightarrow> bool" where
  "struct_inv s \<longleftrightarrow> fresh_inv s \<and> bcast_inv s \<and> viewer_inv s \<and> slot_inv s"

text \<open>What \<open>cleanupViewer\<close> does to an existing session before it logs and notifies, and what
  \<open>createViewerPeer\<close> does between its first log line and the offer.\<close>

definition drop_viewer :: "string \<Rightarrow> viewer_peer \<Rightarrow> state \<Rightarrow> state" where
  "drop_viewer vid peer s =
     (close_pc (vp_pc peer) s)\<lparr>viewerPeers := AList.delete vid (viewerPeers s),
        pendingCandidates := (pendingCandidates s)(vid := None)\<rparr>"

fun is_viewer_h :: "handlers \<Rightarrow> bool" where
  "is_viewer_h (ViewerHandlers vid ws) = True"
| "is_viewer_h _ = False"

definition install_viewer :: "string \<Rightarrow> ws_id \<Rightarrow> state \<Rightarrow> state" where
  "install_viewer vid ws s =
     (let (pc, s3) = new_pc (ViewerHandlers vid ws) s;
          s4 = s3\<lparr>viewerPeers := AList.update vid \<lparr>vp_ws = ws, vp_pc = pc\<rparr> (viewerPeers s3)\<rparr>
      in attach_track vid pc s4)"

definition server_inv :: "state \<Rightarrow> bool" where
  "server_inv s \<longleftrightarrow> struct_inv s \<and> video_inv s"

subsection \<open>Concrete worlds, messages and traces\<close>

text \<open>The total version of \<open>run\<close>, for naming the state a trace leads to.\<close>

definition exec :: "world \<Rightarrow> event list \<Rightarrow> state \<Rightarrow> state" where
  "exec w es s = fold (step w) es s"

text \<open>The world in which no library call fails.\<close>

definition w_ok :: world where
  "w_ok = \<lparr>createOffer_res = (\<lambda>_ _. Inr ''offer''), createAnswer_res = (\<lambda>_. Inr ''answer''),
     setLocalDescription_res = (\<lambda>_ _. None), setRemoteDescription_res = (\<lambda>_ _. None),
     addIceCandidate_res = (\<lambda>_ _. None), replaceTrack_res = (\<lambda>_ _. None),
     send_res = (\<lambda>_ _. None), randomUUID = ''uuid''\<rparr>"

text \<open>A message with the given \<open>type\<close>, \<open>role\<close> and \<open>viewerId\<close>; the payload stands for
  whichever of \<open>offer\<close>, \<open>answer\<close> and \<open>candidate\<close> the type reads.\<close>

definition message :: "string \<Rightarrow> string \<Rightarrow> string \<Rightarrow> string \<Rightarrow> msg" where
  "message t r v payload = \<lparr>m_type = t, m_role = r, m_viewerId = v, m_offer = payload,
     m_answer = payload, m_candidate = payload\<rparr>"

definition T_video :: track where
  "T_video = \<lparr>track_id = 1, kind = ''video''\<rparr>"

definition T_audio :: track where
  "T_audio = \<lparr>track_id = 2, kind = ''audio''\<rparr>"

text \<open>A broadcaster on socket 0 (peer connection 0), then a viewer \<open>v\<close> on socket 1
  (peer connection 1).\<close>

definition trace_bv :: "event list" where
  "trace_bv = [Connection ''10.0.0.1'', WsMessage 0 (Json (message ''register'' ''broadcaster'' [] [])),
     Connection ''10.0.0.2'', WsMessage 1 (Json (message ''register'' ''viewer'' ''v'' []))]"

text \<open>A broadcaster on socket 0 whose video track has arrived.\<close>

definition trace_bt :: "event list" where
  "trace_bt = [Connection ''10.0.0.1'', WsMessage 0 (Json (message ''register'' ''broadcaster'' [] [])),
     PcTrack 0 T_video]"

text \<open>Worlds in which one library call fails: \<open>addIceCandidate\<close> on the candidate \<open>bad\<close>,
  \<open>createOffer\<close>, \<open>setRemoteDescription\<close>.\<close>

definition w_bad :: world where
  "w_bad = w_ok\<lparr>addIceCandidate_res := (\<lambda>_ c. if c = ''bad'' then Some ''boom'' else None)\<rparr>"

definition w_nooffer :: world where
  "w_nooffer = w_ok\<lparr>createOffer_res := (\<lambda>_ _. Inl ''boom'')\<rparr>"

definition w_noremote :: world where
  "w_noremote = w_ok\<lparr>setRemoteDescription_res := (\<lambda>_ _. Some ''boom'')\<rparr>"

text \<open>The lines that \<open>log\<close> printed at level \<open>error\<close>.\<close>

definition error_lines :: "state \<Rightarrow> (level \<times> string) list" where
  "error_lines s = filter (\<lambda>e. fst e = Err) (console s)"

text \<open>A viewer \<open>v\<close> on socket 0 (peer connection 0); the same followed by two candidates; the
  same followed by the viewer's answer.\<close>

definition trace_v :: "event list" where
  "trace_v = [Connection ''10.0.0.2'', WsMessage 0 (Json (message ''register'' ''viewer'' ''v'' []))]"

definition trace_vc :: "event list" where
  "trace_vc = trace_v @ [WsMessage 0 (Json (message ''candidate'' [] [] ''bad'')),
     WsMessage 0 (Json (message ''candidate'' [] [] ''good''))]"

definition trace_drain :: "event list" where
  "trace_drain = [Connection ''10.0.0.2'', WsMessage 0 (Json (message ''register'' ''viewer'' ''v'' [])),
     WsMessage 0 (Json (message ''candidate'' [] [] ''bad'')),
     WsMessage 0 (Json (message ''candidate'' [] [] ''good'')),
     WsMessage 0 (Json (message ''answer'' [] [] ''sdp''))]"

text \<open>Broadcaster and viewer as in \<open>trace_bv\<close>, then: the broadcaster's video track arrives;
  or the viewer answers; or the track arrives and a second broadcaster registers on socket 2.\<close>

definition trace_bvt :: "event list" where
  "trace_bvt = trace_bv @ [PcTrack 0 T_video]"

definition trace_bva :: "event list" where
  "trace_bva = trace_bv @ [WsMessage 1 (Json (message ''answer'' [] [] ''sdp''))]"

definition trace_rereg :: "event list" where
  "trace_rereg = trace_bvt @ [Connection ''10.0.0.3'',
     WsMessage 2 (Json (message ''register'' ''broadcaster'' [] []))]"

text \<open>Two sockets register as broadcaster, a viewer registers, both broadcaster sockets close,
  a third broadcaster registers; then the timeout armed by the first close fires.\<close>

definition trace_two_closes :: "event list" where
  "trace_two_closes = [Connection ''10.0.0.1'', WsMessage 0 (Json (message ''register'' ''broadcaster'' [] [])),
     Connection ''10.0.0.1'', WsMessage 1 (Json (message ''register'' ''broadcaster'' [] [])),
     Connection ''10.0.0.2'', WsMessage 2 (Json (message ''register'' ''viewer'' ''v'' [])),
     WsClose 0, WsClose 1,
     Connection ''10.0.0.1'', WsMessage 3 (Json (message ''register'' ''broadcaster'' [] []))]"

definition trace_orphan_timer :: "event list" where
  "trace_orphan_timer = trace_two_closes @ [TimerFire 0]"

text \<open>The viewer \<open>v\<close> of \<open>trace_vc\<close> with its two buffered candidates, and a second socket
  (socket 1) connected. Then: that socket registers as viewer \<open>v\<close> too (peer connection 1
  replaces peer connection 0), and the replaced peer connection reports that it is closed.\<close>

definition trace_vcc :: "event list" where
  "trace_vcc = trace_vc @ [Connection ''10.0.0.3'']"

definition trace_replaced :: "event list" where
  "trace_replaced = trace_vcc @ [WsMessage 1 (Json (message ''register'' ''viewer'' ''v'' []))]"

definition trace_stale_closed :: "event list" where
  "trace_stale_closed = trace_replaced @ [PcConnectionState 0 ''closed'']"

text \<open>The \<open>broadcasterDisconnected\<close> messages with \<open>permanent: false\<close> handed to \<open>ws.send\<close>.\<close>

definition disconnect_notices :: "state \<Rightarrow> (ws_id \<times> json) list" where
  "disconnect_notices s = filter (\<lambda>e. snd e = BroadcasterDisconnected False) (sent s)"

text \<open>Peer connections that are not closed, by the handlers they carry.\<close>

definition live_broadcaster :: "state \<Rightarrow> pc_id \<Rightarrow> bool" where
  "live_broadcaster s p \<longleftrightarrow>
     (case handlers (pcs s p) of BroadcasterHandlers ws \<Rightarrow> \<not> closed (pcs s p) | _ \<Rightarrow> False)"



subsection \<open>Frame lemmas\<close>

lemma benign_refl [simp]: "benign s s"
  by (simp add: benign_def)

lemma benign_trans: "benign s s1 \<Longrightarrow> benign s1 s2 \<Longrightarrow> benign s s2"
  by (simp add: benign_def)

lemma benign_log [simp]: "benign s s1 \<Longrightarrow> benign s (log m l s1)"
  by (simp add: benign_def log_def)

lemma benign_safeSend [simp]: "benign s s1 \<Longrightarrow> benign s (safeSend w ws d s1)"
  by (simp add: benign_def safeSend_def log_def split: option.split)

lemma benign_fold:
  assumes "\<And>x s1. benign s s1 \<Longrightarrow> benign s (f x s1)"
  shows "benign s s1 \<Longrightarrow> benign s (fold f xs s1)"
  by (induction xs arbitrary: s1) (simp_all add: assms)

lemma benign_notifyViewerCount [simp]: "benign s s1 \<Longrightarrow> benign s (notifyViewerCount w s1)"
  by (simp add: notifyViewerCount_def)

lemma benign_notifyAllViewers [simp]: "benign s s1 \<Longrightarrow> benign s (notifyAllViewers w d s1)"
  unfolding notifyAllViewers_def by (rule benign_fold) (simp_all split: prod.split)

lemma benign_upd_pc:
  "benign s s1 \<Longrightarrow> handlers (f (pcs s1 p)) = handlers (pcs s1 p) \<Longrightarrow>
   closed (f (pcs s1 p)) = closed (pcs s1 p) \<Longrightarrow>
   transceivers (f (pcs s1 p)) = transceivers (pcs s1 p) \<Longrightarrow> benign s (upd_pc p f s1)"
  by (simp add: benign_def upd_pc_def)

lemma benign_setLocalDescription:
  "setLocalDescription w p d s1 = (s2, r) \<Longrightarrow> benign s s1 \<Longrightarrow> benign s s2"
  by (auto simp: setLocalDescription_def benign_upd_pc split: option.splits)

lemma benign_setRemoteDescription:
  "setRemoteDescription w p d s1 = (s2, r) \<Longrightarrow> benign s s1 \<Longrightarrow> benign s s2"
  by (auto simp: setRemoteDescription_def benign_upd_pc split: option.splits)

lemma benign_tryAddIceCandidate [simp]: "benign s s1 \<Longrightarrow> benign s (tryAddIceCandidate w p c s1)"
  unfolding tryAddIceCandidate_def by (rule benign_upd_pc) (simp_all split: option.split)

lemma benign_restartViewerIce [simp]: "benign s s1 \<Longrightarrow> benign s (restartViewerIce w vid s1)"
  unfolding restartViewerIce_def
  by (auto split: option.split sum.split prod.split dest: benign_setLocalDescription)

lemma benign_onicecandidate [simp]: "benign s s1 \<Longrightarrow> benign s (onicecandidate w ws c s1)"
  by (simp add: onicecandidate_def split: option.split)

lemma benign_b_ice [simp]: "benign s s1 \<Longrightarrow> benign s (broadcaster_oniceconnectionstatechange p s1)"
  by (simp add: broadcaster_oniceconnectionstatechange_def)

lemma benign_b_conn [simp]: "benign s s1 \<Longrightarrow> benign s (broadcaster_onconnectionstatechange w p s1)"
  by (simp add: broadcaster_onconnectionstatechange_def Let_def)

lemma benign_v_ice [simp]: "benign s s1 \<Longrightarrow> benign s (viewer_oniceconnectionstatechange w vid p s1)"
  by (simp add: viewer_oniceconnectionstatechange_def Let_def)

lemma benign_set_conn [simp]: "benign s s1 \<Longrightarrow> benign s (set_conn ws f s1)"
  by (simp add: benign_def set_conn_def)

lemma benign_clearTimeout [simp]: "benign s s1 \<Longrightarrow> benign s (clearTimeout t s1)"
  by (simp add: benign_def clearTimeout_def)

lemma benign_on_offer [simp]: "benign s s1 \<Longrightarrow> benign s (on_offer w ws m s1)"
  unfolding on_offer_def
  by (auto split: option.split sum.split prod.split dest: benign_setLocalDescription benign_setRemoteDescription)

lemma benign_push_pending [simp]: "benign s s1 \<Longrightarrow> benign s (push_pending vid c s1)"
  by (simp add: benign_def push_pending_def)

lemma benign_on_candidate [simp]: "benign s s1 \<Longrightarrow> benign s (on_candidate w ws m s1)"
  unfolding on_candidate_def
  by (auto split: option.split)

lemma benign_broadcaster_timeout [simp]: "benign s s1 \<Longrightarrow> benign s (broadcaster_timeout w s1)"
  by (simp add: broadcaster_timeout_def)

lemma benign_on_connection [simp]: "benign s s1 \<Longrightarrow> benign s (on_connection ip s1)"
  by (simp add: on_connection_def benign_def log_def)

lemma benign_same_struct: "benign s s' \<Longrightarrow> same_struct s s'"
  by (simp add: benign_def same_struct_def)

lemma same_struct_refl [simp]: "same_struct s s"
  by (simp add: same_struct_def)

lemma same_struct_trans: "same_struct s s1 \<Longrightarrow> same_struct s1 s2 \<Longrightarrow> same_struct s s2"
  by (simp add: same_struct_def)

lemma same_struct_inv: "same_struct s s' \<Longrightarrow> struct_inv s \<Longrightarrow> struct_inv s'"
  unfolding struct_inv_def
  apply (intro conjI)
  subgoal by (simp add: same_struct_def fresh_inv_def)
  subgoal by (cases "broadcasterPeer s"; cases "broadcasterPeer s'") (auto simp: same_struct_def bcast_inv_def)
  subgoal by (simp add: same_struct_def viewer_inv_def)
  subgoal by (simp add: same_struct_def slot_inv_def)
  done

lemma benign_struct_inv: "benign s s' \<Longrightarrow> struct_inv s \<Longrightarrow> struct_inv s'"
  by (blast intro: same_struct_inv benign_same_struct)

lemma benign_video_inv: "benign s s' \<Longrightarrow> video_inv s \<Longrightarrow> video_inv s'"
  by (simp add: benign_def video_inv_def current_track_def)

lemma cleanupViewer_None: "map_of (viewerPeers s) vid = None \<Longrightarrow> cleanupViewer w vid s = s"
  by (simp add: cleanupViewer_def)

lemma cleanupViewer_Some:
  "map_of (viewerPeers s) vid = Some peer \<Longrightarrow>
   cleanupViewer w vid s =
     notifyViewerCount w
       (log (''Viewer '' @ vid @ '' cleaned up (remaining: '' @
             string_of_nat (length (AList.delete vid (viewerPeers s))) @ '')'') Info
          (drop_viewer vid peer s))"
  by (simp add: cleanupViewer_def drop_viewer_def Let_def close_pc_def upd_pc_def)

lemma drop_viewer_sel [simp]:
  "broadcasterPeer (drop_viewer vid peer s) = broadcasterPeer s"
  "broadcasterWs (drop_viewer vid peer s) = broadcasterWs s"
  "viewerPeers (drop_viewer vid peer s) = AList.delete vid (viewerPeers s)"
  "pendingCandidates (drop_viewer vid peer s) = (pendingCandidates s)(vid := None)"
  "next_pc (drop_viewer vid peer s) = next_pc s"
  "handlers (pcs (drop_viewer vid peer s) p) = handlers (pcs s p)"
  "transceivers (pcs (drop_viewer vid peer s) p) = transceivers (pcs s p)"
  "closed (pcs (drop_viewer vid peer s) p) = (p = vp_pc peer \<or> closed (pcs s p))"
  by (simp_all add: drop_viewer_def close_pc_def upd_pc_def)

lemma viewer_inv_pc_inj:
  assumes "viewer_inv s" "map_of (viewerPeers s) v1 = Some p1" "map_of (viewerPeers s) v2 = Some p2"
    "vp_pc p1 = vp_pc p2"
  shows "v1 = v2"
proof -
  have "handlers (pcs s (vp_pc p1)) = ViewerHandlers v1 (vp_ws p1)"
    using assms(1,2) by (simp add: viewer_inv_def del: map_of_eq_Some_iff)
  moreover have "handlers (pcs s (vp_pc p2)) = ViewerHandlers v2 (vp_ws p2)"
    using assms(1,3) by (simp add: viewer_inv_def del: map_of_eq_Some_iff)
  ultimately show ?thesis using assms(4) by simp
qed

lemma drop_viewer_viewer_inv:
  assumes inv: "viewer_inv s" and peer: "map_of (viewerPeers s) vid = Some peer"
  shows "viewer_inv (drop_viewer vid peer s)"
  unfolding viewer_inv_def
proof (intro conjI allI impI)
  show "distinct (map fst (viewerPeers (drop_viewer vid peer s)))"
    using inv by (simp add: viewer_inv_def distinct_delete)
next
  fix v p
  assume a: "map_of (viewerPeers (drop_viewer vid peer s)) v = Some p"
  then have ne: "v \<noteq> vid" and old: "map_of (viewerPeers s) v = Some p"
    by (auto simp: delete_conv' split: if_splits)
  have "vp_pc p \<noteq> vp_pc peer"
    using viewer_inv_pc_inj[OF inv old peer] ne by blast
  moreover have "handlers (pcs s (vp_pc p)) = ViewerHandlers v (vp_ws p) \<and> \<not> closed (pcs s (vp_pc p))"
    using inv old by (simp add: viewer_inv_def del: map_of_eq_Some_iff)
  ultimately show "handlers (pcs (drop_viewer vid peer s) (vp_pc p)) = ViewerHandlers v (vp_ws p)"
    and "\<not> closed (pcs (drop_viewer vid peer s) (vp_pc p))"
    by simp_all
next
  fix p v ws
  assume a: "handlers (pcs (drop_viewer vid peer s) p) = ViewerHandlers v ws \<and>
             \<not> closed (pcs (drop_viewer vid peer s) p)"
  then have h: "handlers (pcs s p) = ViewerHandlers v ws" and np: "p \<noteq> vp_pc peer"
    and nc: "\<not> closed (pcs s p)"
    by simp_all
  have old: "map_of (viewerPeers s) v = Some \<lparr>vp_ws = ws, vp_pc = p\<rparr>"
    using inv h nc by (simp add: viewer_inv_def del: map_of_eq_Some_iff)
  have "v \<noteq> vid" using old peer np by auto
  then show "map_of (viewerPeers (drop_viewer vid peer s)) v = Some \<lparr>vp_ws = ws, vp_pc = p\<rparr>"
    using old by (simp add: delete_conv' del: map_of_eq_Some_iff)
qed

lemma drop_viewer_bcast_inv:
  assumes "bcast_inv s" "viewer_inv s" "map_of (viewerPeers s) vid = Some peer"
  shows "bcast_inv (drop_viewer vid peer s)"
proof -
  have h: "handlers (pcs s (vp_pc peer)) = ViewerHandlers vid (vp_ws peer)"
    using assms(2,3) by (simp add: viewer_inv_def del: map_of_eq_Some_iff)
  show ?thesis
    using assms(1) h by (auto simp: bcast_inv_def split: option.splits)
qed

lemma drop_viewer_struct:
  assumes "struct_inv s" "map_of (viewerPeers s) vid = Some peer"
  shows "struct_inv (drop_viewer vid peer s)"
  using assms unfolding struct_inv_def
  by (simp add: drop_viewer_viewer_inv drop_viewer_bcast_inv del: map_of_eq_Some_iff)
     (simp add: fresh_inv_def slot_inv_def)

lemma cleanupViewer_struct:
  assumes "struct_inv s"
  shows "struct_inv (cleanupViewer w vid s)"
proof (cases "map_of (viewerPeers s) vid")
  case None
  then show ?thesis using assms by (simp add: cleanupViewer_None)
next
  case (Some peer)
  have "benign (drop_viewer vid peer s) (cleanupViewer w vid s)"
    by (simp add: cleanupViewer_Some[OF Some])
  then show ?thesis using drop_viewer_struct[OF assms Some] by (rule benign_struct_inv)
qed

lemma cleanupViewer_video: "video_inv s \<Longrightarrow> video_inv (cleanupViewer w vid s)"
proof (cases "map_of (viewerPeers s) vid")
  case None
  assume "video_inv s"
  then show ?thesis using None by (simp add: cleanupViewer_None)
next
  case (Some peer)
  assume v: "video_inv s"
  have "benign (drop_viewer vid peer s) (cleanupViewer w vid s)"
    by (simp add: cleanupViewer_Some[OF Some])
  moreover have "video_inv (drop_viewer vid peer s)"
    using v by (simp add: video_inv_def current_track_def)
  ultimately show ?thesis by (rule benign_video_inv)
qed

lemma cleanupViewer_gone: "distinct (map fst (viewerPeers s)) \<Longrightarrow> map_of (viewerPeers (cleanupViewer w vid s)) vid = None"
proof (cases "map_of (viewerPeers s) vid")
  case None
  then show ?thesis by (simp add: cleanupViewer_None)
next
  case (Some peer)
  have "benign (drop_viewer vid peer s) (cleanupViewer w vid s)"
    by (simp add: cleanupViewer_Some[OF Some])
  then have "viewerPeers (cleanupViewer w vid s) = AList.delete vid (viewerPeers s)"
    by (simp add: benign_def)
  then show ?thesis by (simp add: delete_conv')
qed

lemma viewer_inv_cong:
  assumes inv: "viewer_inv s" and vp: "viewerPeers s' = viewerPeers s"
    and old: "\<And>p. is_viewer_h (handlers (pcs s p)) \<Longrightarrow>
                handlers (pcs s' p) = handlers (pcs s p) \<and> closed (pcs s' p) = closed (pcs s p)"
    and new: "\<And>p. is_viewer_h (handlers (pcs s' p)) \<Longrightarrow> is_viewer_h (handlers (pcs s p))"
  shows "viewer_inv s'"
  unfolding viewer_inv_def
proof (intro conjI allI impI)
  show "distinct (map fst (viewerPeers s'))" using inv vp by (simp add: viewer_inv_def)
next
  fix vid peer assume "map_of (viewerPeers s') vid = Some peer"
  then have m: "map_of (viewerPeers s) vid = Some peer" by (simp add: vp)
  then have h: "handlers (pcs s (vp_pc peer)) = ViewerHandlers vid (vp_ws peer)"
    and c: "\<not> closed (pcs s (vp_pc peer))"
    using inv by (simp_all add: viewer_inv_def del: map_of_eq_Some_iff)
  from h have "is_viewer_h (handlers (pcs s (vp_pc peer)))" by simp
  from old[OF this] h c
  show "handlers (pcs s' (vp_pc peer)) = ViewerHandlers vid (vp_ws peer)"
    and "\<not> closed (pcs s' (vp_pc peer))" by simp_all
next
  fix p vid ws
  assume a: "handlers (pcs s' p) = ViewerHandlers vid ws \<and> \<not> closed (pcs s' p)"
  then have "is_viewer_h (handlers (pcs s' p))" by simp
  from old[OF new[OF this]] a
  have "handlers (pcs s p) = ViewerHandlers vid ws \<and> \<not> closed (pcs s p)" by simp
  then show "map_of (viewerPeers s') vid = Some \<lparr>vp_ws = ws, vp_pc = p\<rparr>"
    using inv by (simp add: viewer_inv_def vp del: map_of_eq_Some_iff)
qed

lemma cleanupBroadcaster_None [simp]: "broadcasterPeer (cleanupBroadcaster s) = None"
  by (simp add: cleanupBroadcaster_def log_def split: option.split)

lemma cleanupBroadcaster_struct:
  assumes "struct_inv s"
  shows "struct_inv (cleanupBroadcaster s)"
proof (cases "broadcasterPeer s")
  case None
  then show ?thesis using assms by (simp add: cleanupBroadcaster_def)
next
  case (Some b)
  let ?X = "(close_pc (bp_pc b) s)\<lparr>broadcasterPeer := None, broadcasterWs := None\<rparr>"
  have hb: "handlers (pcs s (bp_pc b)) = BroadcasterHandlers (bp_ws b)"
    using assms Some by (simp add: struct_inv_def bcast_inv_def)
  have "fresh_inv ?X" using assms by (simp add: struct_inv_def fresh_inv_def close_pc_def upd_pc_def)
  moreover have "bcast_inv ?X"
    using assms Some by (auto simp: struct_inv_def bcast_inv_def close_pc_def upd_pc_def)
  moreover have "viewer_inv ?X"
  proof (rule viewer_inv_cong)
    show "viewer_inv s" using assms by (simp add: struct_inv_def)
  qed (use hb in \<open>auto simp: close_pc_def upd_pc_def split: if_splits\<close>)
  moreover have "slot_inv ?X" using assms by (simp add: struct_inv_def slot_inv_def close_pc_def upd_pc_def)
  ultimately have "struct_inv ?X" by (simp add: struct_inv_def)
  moreover have "benign ?X (cleanupBroadcaster s)" by (simp add: cleanupBroadcaster_def Some)
  ultimately show ?thesis by (rule benign_struct_inv[rotated])
qed

lemma cleanupBroadcaster_video: "video_inv s \<Longrightarrow> video_inv (cleanupBroadcaster s)"
  by (simp add: cleanupBroadcaster_def video_inv_def current_track_def log_def close_pc_def
      upd_pc_def split: option.split)

lemma createBroadcasterPeer_struct:
  assumes "struct_inv s"
  shows "struct_inv (createBroadcasterPeer ws s)"
proof -
  let ?s1 = "cleanupBroadcaster s"
  have s1: "struct_inv ?s1" by (rule cleanupBroadcaster_struct[OF assms])
  have f: "handlers (pcs ?s1 (next_pc ?s1)) = NoHandlers"
    using s1 by (simp add: struct_inv_def fresh_inv_def)
  have "fresh_inv (createBroadcasterPeer ws s)"
    using s1 by (simp add: struct_inv_def fresh_inv_def createBroadcasterPeer_def Let_def new_pc_def
        addTransceiver_kind_def upd_pc_def log_def)
  moreover have "bcast_inv (createBroadcasterPeer ws s)"
    using s1 by (auto simp: struct_inv_def bcast_inv_def createBroadcasterPeer_def Let_def new_pc_def
        addTransceiver_kind_def upd_pc_def log_def blank_pc_def)
  moreover have "viewer_inv (createBroadcasterPeer ws s)"
  proof (rule viewer_inv_cong)
    show "viewer_inv ?s1" using s1 by (simp add: struct_inv_def)
  qed (use f in \<open>auto simp: createBroadcasterPeer_def Let_def new_pc_def
        addTransceiver_kind_def upd_pc_def log_def blank_pc_def split: if_splits\<close>)
  moreover have "slot_inv (createBroadcasterPeer ws s)"
    using s1 by (simp add: struct_inv_def slot_inv_def createBroadcasterPeer_def Let_def new_pc_def
        addTransceiver_kind_def upd_pc_def log_def)
  ultimately show ?thesis by (simp add: struct_inv_def)
qed

lemma createBroadcasterPeer_video:
  assumes "video_inv s"
  shows "video_inv (createBroadcasterPeer ws s)"
  using cleanupBroadcaster_video[OF assms]
  by (simp add: video_inv_def current_track_def tracks_ok_def createBroadcasterPeer_def Let_def
        new_pc_def addTransceiver_kind_def upd_pc_def log_def blank_pc_def)

lemma sendOfferToViewer_shape:
  "\<exists>s1. benign s s1 \<and>
     (sendOfferToViewer w vid s = s1 \<or> sendOfferToViewer w vid s = cleanupViewer w vid s1)"
proof (cases "map_of (viewerPeers s) vid")
  case None
  then show ?thesis by (auto simp: sendOfferToViewer_def intro!: exI[of _ s])
next
  case (Some peer)
  show ?thesis
  proof (cases "createOffer_res w (pcs s (vp_pc peer)) False")
    case (Inl e)
    have "benign s (log (''createOffer error ['' @ vid @ '']: '' @ e) Err s)" by simp
    then show ?thesis using Some Inl by (auto simp: sendOfferToViewer_def simp del: benign_log)
  next
    case (Inr offer)
    obtain s1 r where sl: "setLocalDescription w (vp_pc peer) offer s = (s1, r)"
      by (cases "setLocalDescription w (vp_pc peer) offer s")
    have b: "benign s s1" by (rule benign_setLocalDescription[OF sl benign_refl])
    show ?thesis
    proof (cases r)
      case None
      have "benign s (log (''Offer sent to viewer '' @ vid) Success
                      (safeSend w (Some (vp_ws peer))
                         (OfferMsg (localDescription (pcs s1 (vp_pc peer)))) s1))"
        using b by simp
      then show ?thesis using Some Inr sl None
        by (auto simp: sendOfferToViewer_def simp del: benign_log benign_safeSend)
    next
      case (Some e)
      have "benign s (log (''createOffer error ['' @ vid @ '']: '' @ e) Err s1)" using b by simp
      then show ?thesis using \<open>map_of (viewerPeers s) vid = Some peer\<close> Inr sl Some
        by (auto simp: sendOfferToViewer_def simp del: benign_log)
    qed
  qed
qed

lemma sendOfferToViewer_struct:
  assumes "struct_inv s"
  shows "struct_inv (sendOfferToViewer w vid s)"
  using sendOfferToViewer_shape[of s w vid] assms
  by (metis cleanupViewer_struct benign_struct_inv)

lemma sendOfferToViewer_video:
  assumes "video_inv s"
  shows "video_inv (sendOfferToViewer w vid s)"
  using sendOfferToViewer_shape[of s w vid] assms
  by (metis cleanupViewer_video benign_video_inv)

lemma install_viewer_sel:
  "pcs (install_viewer vid ws s) =
     (pcs s)(next_pc s := blank_pc\<lparr>handlers := ViewerHandlers vid ws,
        transceivers := [case current_track s of
            None \<Rightarrow> \<lparr>tr_kind = ''video'', direction = ''sendonly'', sender_track = None\<rparr>
          | Some t \<Rightarrow> \<lparr>tr_kind = kind t, direction = ''sendonly'', sender_track = Some t\<rparr>]\<rparr>)"
  "next_pc (install_viewer vid ws s) = Suc (next_pc s)"
  "viewerPeers (install_viewer vid ws s) =
     AList.update vid \<lparr>vp_ws = ws, vp_pc = next_pc s\<rparr> (viewerPeers s)"
  "broadcasterPeer (install_viewer vid ws s) = broadcasterPeer s"
  "broadcasterWs (install_viewer vid ws s) = broadcasterWs s"
  by (simp_all add: install_viewer_def attach_track_def Let_def new_pc_def current_track_def
      addTransceiver_kind_def addTransceiver_track_def upd_pc_def log_def blank_pc_def fun_eq_iff
      split: option.split)

lemma createViewerPeer_eq:
  "createViewerPeer w vid ws s =
     sendOfferToViewer w vid
       (install_viewer vid ws (log (''Creating viewer peer: '' @ vid) Info (cleanupViewer w vid s)))"
  by (simp only: createViewerPeer_def install_viewer_def Let_def split_beta)

lemma current_track_log [simp]: "current_track (log m l s) = current_track s"
  by (simp add: current_track_def log_def)

lemma install_viewer_struct:
  assumes inv: "struct_inv s" and gone: "map_of (viewerPeers s) vid = None"
  shows "struct_inv (install_viewer vid ws s)"
proof -
  have f: "handlers (pcs s (next_pc s)) = NoHandlers"
    using inv by (simp add: struct_inv_def fresh_inv_def)
  have vi: "viewer_inv s" using inv by (simp add: struct_inv_def)
  have "fresh_inv (install_viewer vid ws s)"
    using inv by (simp add: struct_inv_def fresh_inv_def install_viewer_sel)
  moreover have "bcast_inv (install_viewer vid ws s)"
    using inv f by (auto simp: struct_inv_def bcast_inv_def install_viewer_sel blank_pc_def split: option.splits)
  moreover have "slot_inv (install_viewer vid ws s)"
    using inv by (simp add: struct_inv_def slot_inv_def install_viewer_sel split: option.split)
  moreover have "viewer_inv (install_viewer vid ws s)"
    unfolding viewer_inv_def
  proof (intro conjI allI impI)
    show "distinct (map fst (viewerPeers (install_viewer vid ws s)))"
      using vi by (simp add: viewer_inv_def install_viewer_sel distinct_update)
  next
    fix v peer assume a: "map_of (viewerPeers (install_viewer vid ws s)) v = Some peer"
    show "handlers (pcs (install_viewer vid ws s) (vp_pc peer)) = ViewerHandlers v (vp_ws peer)"
      and "\<not> closed (pcs (install_viewer vid ws s) (vp_pc peer))"
    proof -
      have "handlers (pcs (install_viewer vid ws s) (vp_pc peer)) = ViewerHandlers v (vp_ws peer) \<and>
          \<not> closed (pcs (install_viewer vid ws s) (vp_pc peer))"
      proof (cases "v = vid")
        case True
        then have "peer = \<lparr>vp_ws = ws, vp_pc = next_pc s\<rparr>"
          using a by (simp add: install_viewer_sel update_conv')
        then show ?thesis using True by (simp add: install_viewer_sel blank_pc_def)
      next
        case False
        then have old: "map_of (viewerPeers s) v = Some peer"
          using a by (simp add: install_viewer_sel update_conv' del: map_of_eq_Some_iff)
        then have h: "handlers (pcs s (vp_pc peer)) = ViewerHandlers v (vp_ws peer)"
          and c: "\<not> closed (pcs s (vp_pc peer))"
          using vi by (simp_all add: viewer_inv_def del: map_of_eq_Some_iff)
        from h f have "vp_pc peer \<noteq> next_pc s" by auto
        then show ?thesis using h c by (simp add: install_viewer_sel)
      qed
      then show "handlers (pcs (install_viewer vid ws s) (vp_pc peer)) = ViewerHandlers v (vp_ws peer)"
        and "\<not> closed (pcs (install_viewer vid ws s) (vp_pc peer))" by simp_all
    qed
  next
    fix p v ws'
    assume a: "handlers (pcs (install_viewer vid ws s) p) = ViewerHandlers v ws' \<and>
               \<not> closed (pcs (install_viewer vid ws s) p)"
    show "map_of (viewerPeers (install_viewer vid ws s)) v = Some \<lparr>vp_ws = ws', vp_pc = p\<rparr>"
    proof (cases "p = next_pc s")
      case True
      then show ?thesis using a by (simp add: install_viewer_sel update_conv' blank_pc_def)
    next
      case False
      then have "handlers (pcs s p) = ViewerHandlers v ws' \<and> \<not> closed (pcs s p)"
        using a by (simp add: install_viewer_sel)
      then have old: "map_of (viewerPeers s) v = Some \<lparr>vp_ws = ws', vp_pc = p\<rparr>"
        using vi by (simp add: viewer_inv_def del: map_of_eq_Some_iff)
      then have "v \<noteq> vid" using gone by auto
      then show ?thesis using old by (simp add: install_viewer_sel update_conv' del: map_of_eq_Some_iff)
    qed
  qed
  ultimately show ?thesis by (simp add: struct_inv_def)
qed

lemma install_viewer_video: "video_inv s \<Longrightarrow> video_inv (install_viewer vid ws s)"
  by (auto simp: video_inv_def install_viewer_sel current_track_def tracks_ok_def blank_pc_def
      split: option.splits)

lemma createViewerPeer_struct:
  assumes "struct_inv s"
  shows "struct_inv (createViewerPeer w vid ws s)"
proof -
  let ?s1 = "cleanupViewer w vid s"
  let ?s2 = "log (''Creating viewer peer: '' @ vid) Info ?s1"
  have s1: "struct_inv ?s1" by (rule cleanupViewer_struct[OF assms])
  have g1: "map_of (viewerPeers ?s1) vid = None"
    using assms by (simp add: cleanupViewer_gone struct_inv_def viewer_inv_def)
  have b: "benign ?s1 ?s2" by simp
  have s2: "struct_inv ?s2" using b s1 by (rule benign_struct_inv)
  have g2: "map_of (viewerPeers ?s2) vid = None" using g1 by (simp add: log_def)
  have "struct_inv (install_viewer vid ws ?s2)" by (rule install_viewer_struct[OF s2 g2])
  then show ?thesis by (simp only: createViewerPeer_eq sendOfferToViewer_struct)
qed

lemma createViewerPeer_video:
  assumes "video_inv s"
  shows "video_inv (createViewerPeer w vid ws s)"
proof -
  let ?s1 = "cleanupViewer w vid s"
  let ?s2 = "log (''Creating viewer peer: '' @ vid) Info ?s1"
  have s1: "video_inv ?s1" by (rule cleanupViewer_video[OF assms])
  have b: "benign ?s1 ?s2" by simp
  have s2: "video_inv ?s2" using b s1 by (rule benign_video_inv)
  have "video_inv (install_viewer vid ws ?s2)" by (rule install_viewer_video[OF s2])
  then show ?thesis by (simp only: createViewerPeer_eq sendOfferToViewer_video)
qed

lemma map_direction_set_track [simp]: "map direction (set_track i t xs) = map direction xs"
  by (induction i t xs rule: set_track.induct) simp_all

lemma tracks_ok_set_track: "tracks_ok xs \<Longrightarrow> kind t = ''video'' \<Longrightarrow> tracks_ok (set_track i t xs)"
  by (induction i t xs rule: set_track.induct) (simp_all add: tracks_ok_def)

lemma same_struct_benign: "same_struct s s1 \<Longrightarrow> benign s1 s2 \<Longrightarrow> same_struct s s2"
  by (simp add: same_struct_def benign_def)

lemma replaceTrack_cases:
  "replaceTrack w p i t s = (s1, r) \<Longrightarrow>
   s1 = s \<or> s1 = upd_pc p (\<lambda>x. x\<lparr>transceivers := set_track i t (transceivers x)\<rparr>) s"
  by (auto simp: replaceTrack_def split: option.splits)

lemma replaceTrack_struct:
  "replaceTrack w p i t s = (s1, r) \<Longrightarrow> same_struct s s1"
  by (drule replaceTrack_cases) (auto simp: same_struct_def upd_pc_def split: if_splits)

lemma replaceTrack_video:
  "replaceTrack w p i t s = (s1, r) \<Longrightarrow> kind t = ''video'' \<Longrightarrow> video_inv s \<Longrightarrow> video_inv s1"
  by (drule replaceTrack_cases)
     (auto simp: video_inv_def current_track_def upd_pc_def tracks_ok_set_track)

lemma video_inv_log [simp]: "video_inv (log m l s) = video_inv s"
  by (simp add: video_inv_def current_track_def log_def)

lemma same_struct_log [simp]: "same_struct s (log m l s1) = same_struct s s1"
  by (simp add: same_struct_def log_def)

lemma ontrack_viewer_struct: "same_struct s s1 \<Longrightarrow> same_struct s (ontrack_viewer w t e s1)"
  by (auto simp: ontrack_viewer_def split: prod.splits option.splits
      dest!: replaceTrack_struct intro: same_struct_trans)

lemma ontrack_viewer_video:
  "kind t = ''video'' \<Longrightarrow> video_inv s \<Longrightarrow> video_inv (ontrack_viewer w t e s)"
  by (auto simp: ontrack_viewer_def split: prod.splits option.splits
      dest: replaceTrack_video)

lemma fold_ontrack_viewer_struct:
  "same_struct s s1 \<Longrightarrow> same_struct s (fold (ontrack_viewer w t) xs s1)"
  by (induction xs arbitrary: s1) (simp_all add: ontrack_viewer_struct)

lemma fold_ontrack_viewer_video:
  "kind t = ''video'' \<Longrightarrow> video_inv s \<Longrightarrow> video_inv (fold (ontrack_viewer w t) xs s)"
  by (induction xs arbitrary: s) (simp_all add: ontrack_viewer_video)

lemma ontrack_struct: "same_struct s (ontrack w t s)"
proof -
  have a: "\<And>b. broadcasterPeer s = Some b \<Longrightarrow>
     same_struct s (log (''Broadcaster track received: '' @ kind t) Success s
        \<lparr>broadcasterPeer := Some (b\<lparr>videoTrack := Some t\<rparr>)\<rparr>)"
    by (simp add: same_struct_def log_def)
  show ?thesis
    using fold_ontrack_viewer_struct[OF a]
    by (auto simp: ontrack_def Let_def same_struct_def log_def split: option.split)
qed

lemma log_sel [simp]:
  "broadcasterPeer (log m l s) = broadcasterPeer s"
  "broadcasterWs (log m l s) = broadcasterWs s"
  "viewerPeers (log m l s) = viewerPeers s"
  "pendingCandidates (log m l s) = pendingCandidates s"
  "broadcasterTimeoutTimer (log m l s) = broadcasterTimeoutTimer s"
  "conns (log m l s) = conns s"
  "next_ws (log m l s) = next_ws s"
  "pcs (log m l s) = pcs s"
  "next_pc (log m l s) = next_pc s"
  "timers (log m l s) = timers s"
  "next_timer (log m l s) = next_timer s"
  "onended (log m l s) = onended s"
  "sent (log m l s) = sent s"
  "console (log m l s) = console s @ [(l, m)]"
  by (simp_all add: log_def)

lemma ontrack_video: "video_inv s \<Longrightarrow> video_inv (ontrack w t s)"
proof (cases "kind t = ''video''")
  case False
  assume "video_inv s"
  then show ?thesis using False by (simp add: ontrack_def Let_def)
next
  case True
  assume v: "video_inv s"
  show ?thesis
  proof (cases "broadcasterPeer s")
    case None
    then show ?thesis using v by (simp add: ontrack_def Let_def)
  next
    case (Some b)
    let ?s2 = "(log (''Broadcaster track received: '' @ kind t) Success s)
                 \<lparr>broadcasterPeer := Some (b\<lparr>videoTrack := Some t\<rparr>)\<rparr>"
    have "video_inv ?s2" using v True by (simp add: video_inv_def current_track_def log_def)
    from fold_ontrack_viewer_video[OF True this, of w "viewerPeers ?s2"]
    have "video_inv (fold (ontrack_viewer w t) (viewerPeers ?s2) ?s2)" .
    then have "video_inv ((fold (ontrack_viewer w t) (viewerPeers ?s2) ?s2)
                 \<lparr>onended := insert t (onended (fold (ontrack_viewer w t) (viewerPeers ?s2) ?s2))\<rparr>)"
      by (simp add: video_inv_def current_track_def)
    then show ?thesis using True Some by (simp add: ontrack_def Let_def log_def)
  qed
qed

lemma track_onended_struct: "same_struct s (track_onended s)"
  by (simp add: track_onended_def Let_def same_struct_def log_def split: option.split)

lemma track_onended_video: "video_inv s \<Longrightarrow> video_inv (track_onended s)"
  by (simp add: track_onended_def Let_def video_inv_def current_track_def log_def split: option.split)

lemma late_replace_struct: "same_struct s (late_replace w vid peer s)"
  by (auto simp: late_replace_def split: option.split prod.split dest: replaceTrack_struct)

lemma late_replace_video: "video_inv s \<Longrightarrow> video_inv (late_replace w vid peer s)"
proof -
  assume v: "video_inv s"
  have k: "\<And>b t. broadcasterPeer s = Some b \<Longrightarrow> videoTrack b = Some t \<Longrightarrow> kind t = ''video''"
    using v by (simp add: video_inv_def current_track_def)
  show ?thesis
    using v by (auto simp: late_replace_def split: option.split prod.split
        dest: replaceTrack_video k)
qed

lemma benign_fold_tryAdd [simp]:
  "benign s s1 \<Longrightarrow> benign s (fold (tryAddIceCandidate w p) cs s1)"
  by (rule benign_fold) simp_all

lemma benign_drain_pending [simp]: "benign s s1 \<Longrightarrow> benign s (drain_pending w vid p s1)"
proof -
  assume "benign s s1"
  then have "benign s (fold (tryAddIceCandidate w p) (pending_of s1 vid) s1)" by simp
  then show ?thesis by (simp add: drain_pending_def Let_def benign_def)
qed

lemma on_answer_shape:
  "\<exists>s1. benign s s1 \<and> (on_answer w ws m s = s1 \<or> (\<exists>vid peer. on_answer w ws m s = late_replace w vid peer s1))"
proof (cases "viewerId (conns s ws)")
  case None
  then show ?thesis by (auto simp: on_answer_def intro!: exI[of _ s])
next
  case (Some vid)
  show ?thesis
  proof (cases "map_of (viewerPeers s) vid")
    case None
    then show ?thesis using Some by (auto simp: on_answer_def intro!: exI[of _ s])
  next
    case peer: (Some peer)
    obtain s1 r where sr: "setRemoteDescription w (vp_pc peer) (m_answer m) s = (s1, r)"
      by (cases "setRemoteDescription w (vp_pc peer) (m_answer m) s")
    have b: "benign s s1" by (rule benign_setRemoteDescription[OF sr benign_refl])
    show ?thesis
    proof (cases r)
      case (Some e)
      have "benign s (log (''Viewer answer error ['' @ vid @ '']: '' @ e) Err s1)" using b by simp
      then show ?thesis using \<open>viewerId (conns s ws) = Some vid\<close> peer sr Some
        by (auto simp: on_answer_def simp del: benign_log)
    next
      case None
      let ?s3 = "drain_pending w vid (vp_pc peer) (log (''Viewer '' @ vid @ '' answer set'') Success s1)"
      have b3: "benign s ?s3" using b by simp
      have "on_answer w ws m s = late_replace w vid peer ?s3"
        using \<open>viewerId (conns s ws) = Some vid\<close> peer sr None
        by (simp add: on_answer_def Let_def)
      then show ?thesis using b3 by blast
    qed
  qed
qed

lemma on_answer_struct: "struct_inv s \<Longrightarrow> struct_inv (on_answer w ws m s)"
  using on_answer_shape[of s w ws m]
  by (metis benign_struct_inv same_struct_inv late_replace_struct)

lemma on_answer_video: "video_inv s \<Longrightarrow> video_inv (on_answer w ws m s)"
  using on_answer_shape[of s w ws m]
  by (metis benign_video_inv late_replace_video)

lemma benign_inv: "benign s s' \<Longrightarrow> server_inv s \<Longrightarrow> server_inv s'"
  by (simp add: server_inv_def benign_struct_inv benign_video_inv)

lemma v_conn_inv: "server_inv s \<Longrightarrow> server_inv (viewer_onconnectionstatechange w vid p s)"
  by (simp add: viewer_onconnectionstatechange_def Let_def server_inv_def cleanupViewer_struct
      cleanupViewer_video benign_struct_inv[of s])

lemma on_register_broadcaster_inv: "server_inv s \<Longrightarrow> server_inv (on_register_broadcaster w ws s)"
proof -
  assume i: "server_inv s"
  let ?s1 = "set_conn ws (\<lambda>c. c\<lparr>role := Some ''broadcaster''\<rparr>) s"
  let ?s2 = "case broadcasterTimeoutTimer ?s1 of None \<Rightarrow> ?s1
             | Some t \<Rightarrow> (clearTimeout t ?s1)\<lparr>broadcasterTimeoutTimer := None\<rparr>"
  let ?s3 = "log ''Broadcaster registering...'' Info ?s2"
  have "benign s ?s2"
    by (simp add: benign_def set_conn_def clearTimeout_def split: option.split)
  then have "benign s ?s3" by simp
  then have "server_inv ?s3" using i by (rule benign_inv)
  then have "server_inv (createBroadcasterPeer ws ?s3)"
    by (simp add: server_inv_def createBroadcasterPeer_struct createBroadcasterPeer_video)
  then show ?thesis
    by (simp add: on_register_broadcaster_def Let_def benign_inv[of "createBroadcasterPeer ws ?s3"])
qed

lemma on_register_viewer_inv: "server_inv s \<Longrightarrow> server_inv (on_register_viewer w ws m s)"
proof -
  assume i: "server_inv s"
  define vid where "vid = (if m_viewerId m \<noteq> [] then m_viewerId m else randomUUID w)"
  let ?s2 = "log (''Viewer registering: '' @ vid) Info
               (set_conn ws (\<lambda>c. c\<lparr>role := Some ''viewer'', viewerId := Some vid\<rparr>) s)"
  have "benign s ?s2" by simp
  then have "server_inv ?s2" using i by (rule benign_inv)
  then have c: "server_inv (createViewerPeer w vid ws ?s2)"
    by (simp add: server_inv_def createViewerPeer_struct createViewerPeer_video)
  show ?thesis
    unfolding on_register_viewer_def Let_def vid_def[symmetric]
    by (rule benign_inv[OF _ c]) simp
qed

lemma on_offer_inv: "server_inv s \<Longrightarrow> server_inv (on_offer w ws m s)"
  by (rule benign_inv[of s]) simp_all

lemma on_candidate_inv: "server_inv s \<Longrightarrow> server_inv (on_candidate w ws m s)"
  by (rule benign_inv[of s]) simp_all

lemma on_answer_inv: "server_inv s \<Longrightarrow> server_inv (on_answer w ws m s)"
  by (simp add: server_inv_def on_answer_struct on_answer_video)

lemma on_message_inv: "server_inv s \<Longrightarrow> server_inv (on_message w ws r s)"
  by (cases r)
     (simp_all add: on_message_def on_register_broadcaster_inv on_register_viewer_inv
        on_offer_inv on_candidate_inv on_answer_inv benign_inv[of s])

lemma on_close_inv: "server_inv s \<Longrightarrow> server_inv (on_close w ws s)"
proof -
  assume i: "server_inv s"
  define s1 where "s1 = log (''WS closed (role: '' @ str_or (role (conns s ws)) ''null'' @ '', id: '' @
                    str_or (viewerId (conns s ws)) ''n/a'' @ '')'') Info s"
  have i1: "server_inv s1" unfolding s1_def by (rule benign_inv[OF _ i]) simp
  have "server_inv (cleanupBroadcaster s1)"
    using i1 by (simp add: server_inv_def cleanupBroadcaster_struct cleanupBroadcaster_video)
  moreover have "benign (cleanupBroadcaster s1)
      ((snd (setTimeout BROADCASTER_TIMEOUT (cleanupBroadcaster s1)))
         \<lparr>broadcasterTimeoutTimer := Some (fst (setTimeout BROADCASTER_TIMEOUT (cleanupBroadcaster s1)))\<rparr>)"
    by (simp add: benign_def setTimeout_def)
  ultimately have b: "server_inv ((snd (setTimeout BROADCASTER_TIMEOUT (cleanupBroadcaster s1)))
         \<lparr>broadcasterTimeoutTimer := Some (fst (setTimeout BROADCASTER_TIMEOUT (cleanupBroadcaster s1)))\<rparr>)"
    by (rule benign_inv[rotated])
  have v: "\<And>vid. server_inv (cleanupViewer w vid s1)"
    using i1 by (simp add: server_inv_def cleanupViewer_struct cleanupViewer_video)
  show ?thesis
    unfolding on_close_def Let_def s1_def[symmetric]
    using i1 b v by (simp add: split_beta split: option.split)
qed

lemma step_inv: "server_inv s \<Longrightarrow> server_inv (step w e s)"
proof (cases e)
  case (Connection ip)
  assume "server_inv s" then show ?thesis using Connection by (simp add: benign_inv[of s])
next
  case (WsMessage ws r)
  assume "server_inv s" then show ?thesis using WsMessage by (simp add: on_message_inv)
next
  case (WsClose ws)
  assume "server_inv s"
  then have "server_inv (set_conn ws (\<lambda>c. c\<lparr>readyState := 3\<rparr>) s)" by (simp add: benign_inv[of s])
  then show ?thesis using WsClose by (simp add: on_close_inv)
next
  case (PcTrack p t)
  assume "server_inv s"
  then have "server_inv (ontrack w t s)"
    by (simp add: server_inv_def ontrack_video same_struct_inv[OF ontrack_struct])
  then show ?thesis using PcTrack \<open>server_inv s\<close> by (simp split: handlers.split)
next
  case (TrackEnded t)
  assume "server_inv s"
  then have "server_inv (s\<lparr>onended := onended s - {t}\<rparr>)" by (simp add: benign_inv[of s] benign_def)
  then show ?thesis using TrackEnded
    by (simp add: server_inv_def track_onended_video same_struct_inv[OF track_onended_struct])
next
  case (PcIceCandidate p c)
  assume "server_inv s" then show ?thesis using PcIceCandidate
    by (simp add: benign_inv[of s] split: handlers.split)
next
  case (PcIceConnectionState p st)
  assume "server_inv s"
  then have "server_inv (upd_pc p (\<lambda>x. x\<lparr>iceConnectionState := st\<rparr>) s)"
    by (simp add: benign_inv[of s] benign_upd_pc)
  then show ?thesis using PcIceConnectionState
    by (simp add: Let_def benign_inv[of "upd_pc p (\<lambda>x. x\<lparr>iceConnectionState := st\<rparr>) s"]
        split: handlers.split)
next
  case (PcConnectionState p st)
  assume "server_inv s"
  then have "server_inv (upd_pc p (\<lambda>x. x\<lparr>connectionState := st\<rparr>) s)"
    by (simp add: benign_inv[of s] benign_upd_pc)
  then show ?thesis using PcConnectionState
    by (simp add: Let_def v_conn_inv benign_inv[of "upd_pc p (\<lambda>x. x\<lparr>connectionState := st\<rparr>) s"]
        split: handlers.split)
next
  case (TimerFire t)
  assume "server_inv s"
  then have "server_inv (s\<lparr>timers := (timers s)(t := None)\<rparr>)" by (simp add: benign_inv[of s] benign_def)
  then show ?thesis using TimerFire
    by (simp add: benign_inv[of "s\<lparr>timers := (timers s)(t := None)\<rparr>"])
qed

lemma inv_init: "server_inv init_state"
  by (simp add: server_inv_def struct_inv_def fresh_inv_def bcast_inv_def viewer_inv_def slot_inv_def
      video_inv_def current_track_def tracks_ok_def init_state_def blank_pc_def)

lemma reachable_inv: "reachable s \<Longrightarrow> server_inv s"
  by (induction rule: reachable.induct) (simp_all add: inv_init step_inv)


section \<open>Evaluation of concrete traces\<close>

lemmas eval_defs = w_ok_def message_def T_video_def T_audio_def init_state_def on_connection_def
  on_message_def on_register_broadcaster_def on_register_viewer_def on_offer_def on_answer_def
  on_candidate_def on_close_def createBroadcasterPeer_def createViewerPeer_def attach_track_def
  cleanupBroadcaster_def cleanupViewer_def sendOfferToViewer_def restartViewerIce_def
  safeSend_def log_def notifyViewerCount_def notifyAllViewers_def new_pc_def upd_pc_def
  close_pc_def addTransceiver_kind_def addTransceiver_track_def setLocalDescription_def
  setRemoteDescription_def tryAddIceCandidate_def late_replace_def push_pending_def
  pending_of_def drain_pending_def
  set_conn_def ontrack_def ontrack_viewer_def replaceTrack_def sender_matches_def blank_pc_def
  blank_conn_def clearTimeout_def setTimeout_def broadcaster_timeout_def track_onended_def
  onicecandidate_def str_or_def BROADCASTER_TIMEOUT_def digit_def string_of_nat.simps Let_def

lemma run_exec: "run w es s = Some s' \<Longrightarrow> exec w es s = s'"
  by (induction es arbitrary: s) (auto simp: exec_def split: if_splits)

lemma reachable_run: "reachable s \<Longrightarrow> run w es s = Some s' \<Longrightarrow> reachable s'"
  by (induction es arbitrary: s) (auto split: if_splits intro: reachable_step)

lemma reachable_exec:
  assumes "reachable s" and "run w es s \<noteq> None"
  shows "reachable (exec w es s)"
proof -
  from assms(2) obtain s' where r: "run w es s = Some s'" by blast
  then have "reachable s'" by (rule reachable_run[OF assms(1)])
  then show ?thesis using run_exec[OF r] by simp
qed

lemmas trace_defs = trace_bv_def trace_bt_def trace_v_def trace_vc_def trace_drain_def
  trace_bvt_def trace_bva_def trace_rereg_def trace_two_closes_def trace_orphan_timer_def
  trace_vcc_def trace_replaced_def trace_stale_closed_def
  w_bad_def w_nooffer_def w_noremote_def

lemma run_trace_bv: "run w_ok trace_bv init_state \<noteq> None"
  by (simp add: trace_bv_def eval_defs cong: let_weak_cong)

lemma reachable_trace_bv: "reachable (exec w_ok trace_bv init_state)"
  by (rule reachable_exec[OF reachable_init run_trace_bv])

lemma run_trace_bt: "run w_ok trace_bt init_state \<noteq> None"
  by (simp add: trace_bt_def eval_defs cong: let_weak_cong)

lemma reachable_trace_bt: "reachable (exec w_ok trace_bt init_state)"
  by (rule reachable_exec[OF reachable_init run_trace_bt])

lemma run_trace_v: "run w_ok trace_v init_state \<noteq> None"
  by (simp add: trace_defs eval_defs cong: let_weak_cong)

lemma run_trace_vc: "run w_ok trace_vc init_state \<noteq> None"
  by (simp add: trace_defs eval_defs cong: let_weak_cong)


lemma run_trace_bva: "run w_ok trace_bva init_state \<noteq> None"
  by (simp add: trace_defs eval_defs cong: let_weak_cong)

lemma run_trace_bvt: "run w_ok trace_bvt init_state \<noteq> None"
  by (simp add: trace_defs eval_defs cong: let_weak_cong)

section \<open>Effects of the handlers on single fields\<close>

lemma benignD:
  assumes "benign s s'"
  shows "broadcasterPeer s' = broadcasterPeer s" "broadcasterWs s' = broadcasterWs s"
    "viewerPeers s' = viewerPeers s" "next_pc s' = next_pc s"
    "handlers (pcs s' p) = handlers (pcs s p)" "closed (pcs s' p) = closed (pcs s p)"
    "transceivers (pcs s' p) = transceivers (pcs s p)"
  using assms by (simp_all add: benign_def)

lemma cleanupViewer_benign_drop:
  "map_of (viewerPeers s) vid = Some peer \<Longrightarrow> benign (drop_viewer vid peer s) (cleanupViewer w vid s)"
  by (simp add: cleanupViewer_Some)

lemma cleanupViewer_sel [simp]:
  "broadcasterPeer (cleanupViewer w vid s) = broadcasterPeer s"
  "next_pc (cleanupViewer w vid s) = next_pc s"
  "handlers (pcs (cleanupViewer w vid s) p) = handlers (pcs s p)"
  "transceivers (pcs (cleanupViewer w vid s) p) = transceivers (pcs s p)"
proof -
  have "broadcasterPeer (cleanupViewer w vid s) = broadcasterPeer s \<and>
        next_pc (cleanupViewer w vid s) = next_pc s \<and>
        handlers (pcs (cleanupViewer w vid s) p) = handlers (pcs s p) \<and>
        transceivers (pcs (cleanupViewer w vid s) p) = transceivers (pcs s p)"
  proof (cases "map_of (viewerPeers s) vid")
    case None
    then show ?thesis by (simp add: cleanupViewer_None)
  next
    case (Some peer)
    from benignD[OF cleanupViewer_benign_drop[OF Some, of w]] show ?thesis by simp
  qed
  then show "broadcasterPeer (cleanupViewer w vid s) = broadcasterPeer s"
    "next_pc (cleanupViewer w vid s) = next_pc s"
    "handlers (pcs (cleanupViewer w vid s) p) = handlers (pcs s p)"
    "transceivers (pcs (cleanupViewer w vid s) p) = transceivers (pcs s p)"
    by simp_all
qed

lemma current_track_cleanupViewer [simp]:
  "current_track (cleanupViewer w vid s) = current_track s"
  by (simp add: current_track_def)

lemma cleanupViewer_closes:
  assumes "map_of (viewerPeers s) vid = Some peer"
  shows "closed (pcs (cleanupViewer w vid s) (vp_pc peer))"
    and "viewerPeers (cleanupViewer w vid s) = AList.delete vid (viewerPeers s)"
  using benignD[OF cleanupViewer_benign_drop[OF assms, of w]] by simp_all

lemma sendOfferToViewer_sel:
  "handlers (pcs (sendOfferToViewer w vid s) p) = handlers (pcs s p)"
  "transceivers (pcs (sendOfferToViewer w vid s) p) = transceivers (pcs s p)"
  "next_pc (sendOfferToViewer w vid s) = next_pc s"
  "broadcasterPeer (sendOfferToViewer w vid s) = broadcasterPeer s"
proof -
  from sendOfferToViewer_shape[of s w vid] obtain s1 where
    b: "benign s s1" and
    e: "sendOfferToViewer w vid s = s1 \<or> sendOfferToViewer w vid s = cleanupViewer w vid s1"
    by blast
  from e benignD[OF b]
  show "handlers (pcs (sendOfferToViewer w vid s) p) = handlers (pcs s p)"
    "transceivers (pcs (sendOfferToViewer w vid s) p) = transceivers (pcs s p)"
    "next_pc (sendOfferToViewer w vid s) = next_pc s"
    "broadcasterPeer (sendOfferToViewer w vid s) = broadcasterPeer s"
    by auto
qed

lemma sendOfferToViewer_entry:
  assumes "distinct (map fst (viewerPeers s))"
  shows "map_of (viewerPeers (sendOfferToViewer w vid s)) vid = map_of (viewerPeers s) vid \<or>
         map_of (viewerPeers (sendOfferToViewer w vid s)) vid = None"
proof -
  from sendOfferToViewer_shape[of s w vid] obtain s1 where
    b: "benign s s1" and
    e: "sendOfferToViewer w vid s = s1 \<or> sendOfferToViewer w vid s = cleanupViewer w vid s1"
    by blast
  have d: "distinct (map fst (viewerPeers s1))" using assms benignD(3)[OF b] by simp
  from e show ?thesis
  proof
    assume "sendOfferToViewer w vid s = s1"
    then show ?thesis using benignD(3)[OF b] by simp
  next
    assume "sendOfferToViewer w vid s = cleanupViewer w vid s1"
    then show ?thesis using cleanupViewer_gone[OF d, of w vid] by simp
  qed
qed

lemma tryAddIceCandidate_sel [simp]:
  "console (tryAddIceCandidate w p c s) = console s"
  "sent (tryAddIceCandidate w p c s) = sent s"
  "pendingCandidates (tryAddIceCandidate w p c s) = pendingCandidates s"
  "viewerPeers (tryAddIceCandidate w p c s) = viewerPeers s"
  "remoteDescription (pcs (tryAddIceCandidate w p c s) q) = remoteDescription (pcs s q)"
  "iceCalls (pcs (tryAddIceCandidate w p c s) p) = iceCalls (pcs s p) @ [c]"
  by (simp_all add: tryAddIceCandidate_def upd_pc_def split: option.split)

lemma tryAddIceCandidate_added:
  "iceAdded (pcs (tryAddIceCandidate w p c s) p) =
     (if addIceCandidate_res w (pcs s p) c = None then iceAdded (pcs s p) @ [c] else iceAdded (pcs s p))"
  by (simp add: tryAddIceCandidate_def upd_pc_def split: option.split)

lemma fold_tryAdd_sel [simp]:
  "console (fold (tryAddIceCandidate w p) cs s) = console s"
  "sent (fold (tryAddIceCandidate w p) cs s) = sent s"
  "pendingCandidates (fold (tryAddIceCandidate w p) cs s) = pendingCandidates s"
  "viewerPeers (fold (tryAddIceCandidate w p) cs s) = viewerPeers s"
  "remoteDescription (pcs (fold (tryAddIceCandidate w p) cs s) q) = remoteDescription (pcs s q)"
  "iceCalls (pcs (fold (tryAddIceCandidate w p) cs s) p) = iceCalls (pcs s p) @ cs"
  by (induction cs arbitrary: s) simp_all

lemma fold_tryAdd_added:
  assumes "\<And>x c. (addIceCandidate_res w x c = None) = ok c"
  shows "iceAdded (pcs (fold (tryAddIceCandidate w p) cs s) p) = iceAdded (pcs s p) @ filter ok cs"
  by (induction cs arbitrary: s) (simp_all add: tryAddIceCandidate_added assms)

lemma late_replace_sel [simp]:
  "pendingCandidates (late_replace w vid peer s) = pendingCandidates s"
  "sent (late_replace w vid peer s) = sent s"
  "viewerPeers (late_replace w vid peer s) = viewerPeers s"
  "remoteDescription (pcs (late_replace w vid peer s) p) = remoteDescription (pcs s p)"
  "iceCalls (pcs (late_replace w vid peer s) p) = iceCalls (pcs s p)"
  "iceAdded (pcs (late_replace w vid peer s) p) = iceAdded (pcs s p)"
  by (simp_all add: late_replace_def replaceTrack_def upd_pc_def split: option.split)

lemma late_replace_no_track: "current_track s = None \<Longrightarrow> late_replace w vid peer s = s"
  by (simp add: late_replace_def current_track_def split: option.splits)

lemma on_answer_ok:
  assumes "viewerId (conns s ws) = Some vid" "map_of (viewerPeers s) vid = Some peer"
    "setRemoteDescription_res w (pcs s (vp_pc peer)) (m_answer m) = None"
  shows "on_answer w ws m s =
     late_replace w vid peer (drain_pending w vid (vp_pc peer)
       (log (''Viewer '' @ vid @ '' answer set'') Success
          (upd_pc (vp_pc peer) (\<lambda>x. x\<lparr>remoteDescription := Some (m_answer m)\<rparr>) s)))"
  using assms by (simp add: on_answer_def setRemoteDescription_def Let_def)

lemma drain_pending_sel [simp]:
  "console (drain_pending w vid p s) = console s"
  "sent (drain_pending w vid p s) = sent s"
  "viewerPeers (drain_pending w vid p s) = viewerPeers s"
  "remoteDescription (pcs (drain_pending w vid p s) q) = remoteDescription (pcs s q)"
  "iceCalls (pcs (drain_pending w vid p s) p) = iceCalls (pcs s p) @ pending_of s vid"
  "pendingCandidates (drain_pending w vid p s) = (pendingCandidates s)(vid := None)"
  by (simp_all add: drain_pending_def Let_def)

lemma current_track_drain [simp]: "current_track (drain_pending w vid p s) = current_track s"
proof -
  have "benign s (drain_pending w vid p s)" by simp
  then show ?thesis by (simp add: benign_def current_track_def)
qed

lemma upd_pc_sel [simp]:
  "pcs (upd_pc p f s) q = (if q = p then f (pcs s p) else pcs s q)"
  "pendingCandidates (upd_pc p f s) = pendingCandidates s"
  "viewerPeers (upd_pc p f s) = viewerPeers s"
  "console (upd_pc p f s) = console s"
  "sent (upd_pc p f s) = sent s"
  by (simp_all add: upd_pc_def)

lemma current_track_upd_pc [simp]: "current_track (upd_pc p f s) = current_track s"
  by (simp add: current_track_def upd_pc_def)

lemma pending_of_simps [simp]:
  "pending_of (log m l s) vid = pending_of s vid"
  "pending_of (upd_pc p f s) vid = pending_of s vid"
  by (simp_all add: pending_of_def upd_pc_def)

lemma on_offer_sel:
  "broadcasterPeer (on_offer w ws m s) = broadcasterPeer s"
  "viewerPeers (on_offer w ws m s) = viewerPeers s"
  "closed (pcs (on_offer w ws m s) p) = closed (pcs s p)"
proof -
  have "benign s (on_offer w ws m s)" by simp
  from benignD[OF this]
  show "broadcasterPeer (on_offer w ws m s) = broadcasterPeer s"
    "viewerPeers (on_offer w ws m s) = viewerPeers s"
    "closed (pcs (on_offer w ws m s) p) = closed (pcs s p)" by simp_all
qed

lemma safeSend_sel [simp]:
  "broadcasterPeer (safeSend w ws d s) = broadcasterPeer s"
  "broadcasterWs (safeSend w ws d s) = broadcasterWs s"
  "viewerPeers (safeSend w ws d s) = viewerPeers s"
  "pendingCandidates (safeSend w ws d s) = pendingCandidates s"
  "broadcasterTimeoutTimer (safeSend w ws d s) = broadcasterTimeoutTimer s"
  "conns (safeSend w ws d s) = conns s"
  "next_ws (safeSend w ws d s) = next_ws s"
  "pcs (safeSend w ws d s) = pcs s"
  "next_pc (safeSend w ws d s) = next_pc s"
  "timers (safeSend w ws d s) = timers s"
  "next_timer (safeSend w ws d s) = next_timer s"
  "onended (safeSend w ws d s) = onended s"
  by (simp_all add: safeSend_def split: option.split)

lemma notifyViewerCount_sel [simp]:
  "broadcasterPeer (notifyViewerCount w s) = broadcasterPeer s"
  "broadcasterWs (notifyViewerCount w s) = broadcasterWs s"
  "viewerPeers (notifyViewerCount w s) = viewerPeers s"
  "pendingCandidates (notifyViewerCount w s) = pendingCandidates s"
  "broadcasterTimeoutTimer (notifyViewerCount w s) = broadcasterTimeoutTimer s"
  "conns (notifyViewerCount w s) = conns s"
  "next_ws (notifyViewerCount w s) = next_ws s"
  "pcs (notifyViewerCount w s) = pcs s"
  "next_pc (notifyViewerCount w s) = next_pc s"
  "timers (notifyViewerCount w s) = timers s"
  "next_timer (notifyViewerCount w s) = next_timer s"
  "onended (notifyViewerCount w s) = onended s"
  by (simp_all add: notifyViewerCount_def)

lemma cleanupViewer_pending:
  "pendingCandidates (cleanupViewer w vid s) =
     (case map_of (viewerPeers s) vid of
        None \<Rightarrow> pendingCandidates s
      | Some peer \<Rightarrow> (pendingCandidates s)(vid := None))"
  by (simp add: cleanupViewer_Some cleanupViewer_None split: option.split)

lemma console_safeSend: "e \<in> set (console s) \<Longrightarrow> e \<in> set (console (safeSend w ws d s))"
  by (simp add: safeSend_def split: option.split)

lemma console_cleanupViewer:
  "e \<in> set (console s) \<Longrightarrow> e \<in> set (console (cleanupViewer w vid s))"
  by (cases "map_of (viewerPeers s) vid")
     (simp_all add: cleanupViewer_None cleanupViewer_Some notifyViewerCount_def console_safeSend
        drop_viewer_def close_pc_def upd_pc_def)

lemma ontrack_viewer_sel [simp]:
  "sent (ontrack_viewer w t e s) = sent s"
  "viewerPeers (ontrack_viewer w t e s) = viewerPeers s"
  "broadcasterPeer (ontrack_viewer w t e s) = broadcasterPeer s"
  "pendingCandidates (ontrack_viewer w t e s) = pendingCandidates s"
  "localDescription (pcs (ontrack_viewer w t e s) p) = localDescription (pcs s p)"
  "remoteDescription (pcs (ontrack_viewer w t e s) p) = remoteDescription (pcs s p)"
  by (simp_all add: ontrack_viewer_def replaceTrack_def upd_pc_def split: prod.split option.split)

lemma fold_ontrack_viewer_sel [simp]:
  "sent (fold (ontrack_viewer w t) xs s) = sent s"
  "viewerPeers (fold (ontrack_viewer w t) xs s) = viewerPeers s"
  "broadcasterPeer (fold (ontrack_viewer w t) xs s) = broadcasterPeer s"
  "pendingCandidates (fold (ontrack_viewer w t) xs s) = pendingCandidates s"
  "localDescription (pcs (fold (ontrack_viewer w t) xs s) p) = localDescription (pcs s p)"
  "remoteDescription (pcs (fold (ontrack_viewer w t) xs s) p) = remoteDescription (pcs s p)"
  by (induction xs arbitrary: s) simp_all

lemma ontrack_viewer_other:
  "vp_pc (snd e) \<noteq> p \<Longrightarrow> pcs (ontrack_viewer w t e s) p = pcs s p"
  by (cases e) (simp add: ontrack_viewer_def replaceTrack_def upd_pc_def split: option.split)

lemma fold_ontrack_viewer_other:
  "\<forall>e \<in> set xs. vp_pc (snd e) \<noteq> p \<Longrightarrow> pcs (fold (ontrack_viewer w t) xs s) p = pcs s p"
  by (induction xs arbitrary: s) (simp_all add: ontrack_viewer_other)

lemma ontrack_viewer_target:
  assumes "replaceTrack_res w (pcs s (vp_pc peer)) t = None"
    and "transceivers (pcs s (vp_pc peer)) = [tr]" and "sender_matches tr"
  shows "transceivers (pcs (ontrack_viewer w t (vid, peer) s) (vp_pc peer)) = [tr\<lparr>sender_track := Some t\<rparr>]"
  using assms by (simp add: ontrack_viewer_def replaceTrack_def upd_pc_def)

lemma fold_ontrack_viewer_target:
  assumes "distinct (map fst xs)" and "(vid, peer) \<in> set xs"
    and "\<forall>e \<in> set xs. fst e \<noteq> vid \<longrightarrow> vp_pc (snd e) \<noteq> vp_pc peer"
    and "replaceTrack_res w (pcs s (vp_pc peer)) t = None"
    and "transceivers (pcs s (vp_pc peer)) = [tr]" and "sender_matches tr"
  shows "transceivers (pcs (fold (ontrack_viewer w t) xs s) (vp_pc peer)) = [tr\<lparr>sender_track := Some t\<rparr>]"
  using assms
proof (induction xs arbitrary: s)
  case Nil
  then show ?case by simp
next
  case (Cons x xs)
  show ?case
  proof (cases "fst x = vid")
    case True
    have "(vid, snd x) \<in> set (x # xs)" using True by (cases x) auto
    then have "snd x = peer"
      using Cons.prems(1,2) True by (cases x) (auto simp: image_iff)
    then have x: "x = (vid, peer)" using True by (cases x) simp
    have "\<forall>e \<in> set xs. fst e \<noteq> vid" using Cons.prems(1) True by (auto simp: image_iff)
    then have o: "\<forall>e \<in> set xs. vp_pc (snd e) \<noteq> vp_pc peer" using Cons.prems(3) by auto
    have "transceivers (pcs (ontrack_viewer w t (vid, peer) s) (vp_pc peer)) = [tr\<lparr>sender_track := Some t\<rparr>]"
      by (rule ontrack_viewer_target[OF Cons.prems(4,5,6)])
    then show ?thesis using x by (simp add: fold_ontrack_viewer_other[OF o])
  next
    case False
    then have ne: "vp_pc (snd x) \<noteq> vp_pc peer" using Cons.prems(3) by simp
    have same: "pcs (ontrack_viewer w t x s) (vp_pc peer) = pcs s (vp_pc peer)"
      by (rule ontrack_viewer_other[OF ne])
    have "transceivers (pcs (fold (ontrack_viewer w t) xs (ontrack_viewer w t x s)) (vp_pc peer)) =
        [tr\<lparr>sender_track := Some t\<rparr>]"
    proof (rule Cons.IH)
      show "distinct (map fst xs)" using Cons.prems(1) by simp
      show "(vid, peer) \<in> set xs" using Cons.prems(2) False by auto
      show "\<forall>e \<in> set xs. fst e \<noteq> vid \<longrightarrow> vp_pc (snd e) \<noteq> vp_pc peer" using Cons.prems(3) by simp
      show "replaceTrack_res w (pcs (ontrack_viewer w t x s) (vp_pc peer)) t = None"
        using Cons.prems(4) by (simp add: same)
      show "transceivers (pcs (ontrack_viewer w t x s) (vp_pc peer)) = [tr]"
        using Cons.prems(5) by (simp add: same)
      show "sender_matches tr" by (rule Cons.prems(6))
    qed
    then show ?thesis by simp
  qed
qed

lemma createBroadcasterPeer_sel:
  "broadcasterPeer (createBroadcasterPeer ws s) = Some \<lparr>bp_ws = ws, bp_pc = next_pc s, videoTrack = None\<rparr>"
  "broadcasterWs (createBroadcasterPeer ws s) = Some ws"
  "viewerPeers (createBroadcasterPeer ws s) = viewerPeers s"
  "pendingCandidates (createBroadcasterPeer ws s) = pendingCandidates s"
  "broadcasterTimeoutTimer (createBroadcasterPeer ws s) = broadcasterTimeoutTimer s"
  "timers (createBroadcasterPeer ws s) = timers s"
  "next_pc (createBroadcasterPeer ws s) = Suc (next_pc s)"
  "pcs (createBroadcasterPeer ws s) p =
     (if p = next_pc s
      then blank_pc\<lparr>handlers := BroadcasterHandlers ws,
             transceivers := [\<lparr>tr_kind = ''video'', direction = ''recvonly'', sender_track = None\<rparr>]\<rparr>
      else pcs (cleanupBroadcaster s) p)"
  by (simp_all add: createBroadcasterPeer_def Let_def new_pc_def addTransceiver_kind_def upd_pc_def
      cleanupBroadcaster_def close_pc_def blank_pc_def split: option.split)

lemma cleanupBroadcaster_pcs:
  "pcs (cleanupBroadcaster s) p =
     (case broadcasterPeer s of
        None \<Rightarrow> pcs s p
      | Some b \<Rightarrow> if p = bp_pc b then (pcs s p)\<lparr>closed := True, iceConnectionState := ''closed'',
                                       connectionState := ''closed''\<rparr> else pcs s p)"
  by (simp add: cleanupBroadcaster_def close_pc_def upd_pc_def split: option.split)





lemma install_viewer_pending [simp]:
  "pendingCandidates (install_viewer vid ws s) = pendingCandidates s"
  by (simp add: install_viewer_def attach_track_def Let_def new_pc_def addTransceiver_kind_def
      addTransceiver_track_def upd_pc_def split: option.split)

lemma on_answer_same_struct: "same_struct s (on_answer w ws m s)"
  using on_answer_shape[of s w ws m]
  by (metis benign_same_struct same_struct_trans late_replace_struct)

lemma createViewerPeer_entry:
  assumes "server_inv s"
  shows "map_of (viewerPeers (createViewerPeer w vid ws s)) vid = Some \<lparr>vp_ws = ws, vp_pc = next_pc s\<rparr> \<or>
         map_of (viewerPeers (createViewerPeer w vid ws s)) vid = None"
proof -
  let ?X = "install_viewer vid ws (log (''Creating viewer peer: '' @ vid) Info (cleanupViewer w vid s))"
  have "struct_inv (cleanupViewer w vid s)"
    using assms by (simp add: server_inv_def cleanupViewer_struct)
  then have d: "distinct (map fst (viewerPeers ?X))"
    by (simp add: install_viewer_sel struct_inv_def viewer_inv_def distinct_update)
  have m: "map_of (viewerPeers ?X) vid = Some \<lparr>vp_ws = ws, vp_pc = next_pc s\<rparr>"
    by (simp add: install_viewer_sel update_conv')
  show ?thesis
    using sendOfferToViewer_entry[OF d, of w vid] m by (auto simp: createViewerPeer_eq)
qed



text \<open>
  What the \<open>closed\<close> state change of a replaced peer connection does. After \<open>trace_replaced\<close>
  viewer \<open>v\<close> is registered on socket 1 with peer connection 1, and peer connection 0, which
  socket 0 had registered under the same id, is closed. Its \<open>onconnectionstatechange\<close>
  handler looks the session up by id, so when peer connection 0 reports \<open>closed\<close>, the
  session on peer connection 1 is cleaned up: the id has no session and no open connection.
\<close>

lemma stale_closed_event_removes_session:
  "run w_ok trace_stale_closed init_state \<noteq> None \<and>
   map_of (viewerPeers (exec w_ok trace_replaced init_state)) ''v'' = Some \<lparr>vp_ws = 1, vp_pc = 1\<rparr> \<and>
   closed (pcs (exec w_ok trace_replaced init_state) 0) \<and>
   \<not> closed (pcs (exec w_ok trace_replaced init_state) 1) \<and>
   map_of (viewerPeers (exec w_ok trace_stale_closed init_state)) ''v'' = None \<and>
   closed (pcs (exec w_ok trace_stale_closed init_state) 1)"
  by (simp add: exec_def trace_defs eval_defs viewer_onconnectionstatechange_def
      cong: let_weak_cong)

section \<open>The claims\<close>

text \<open>
  C9. An offer, answer or candidate message on a connection whose \<open>role\<close> is still
  \<open>null\<close> (no register message was handled on it yet) changes nothing: the state after the
  message event is the state before it, in every field, the console and the sent messages
  included.
\<close>

theorem unregistered_messages_no_effect:
  assumes "role (conns s ws) = None"
    and "m_type m = ''offer'' \<or> m_type m = ''answer'' \<or> m_type m = ''candidate''"
  shows "step w (WsMessage ws (Json m)) s = s"
  using assms by (auto simp: on_message_def on_candidate_def)

theorem unregistered_messages_no_effect_witness:
  "role (conns (on_connection ''10.0.0.1'' init_state) 0) = None \<and>
   step w_ok (WsMessage 0 (Json (message ''candidate'' [] [] ''c1'')))
     (on_connection ''10.0.0.1'' init_state) = on_connection ''10.0.0.1'' init_state"
proof -
  have h: "role (conns (on_connection ''10.0.0.1'' init_state) 0) = None"
    by (simp add: on_connection_def init_state_def log_def)
  have t: "m_type (message ''candidate'' [] [] ''c1'') = ''offer'' \<or>
        m_type (message ''candidate'' [] [] ''c1'') = ''answer'' \<or>
        m_type (message ''candidate'' [] [] ''c1'') = ''candidate''"
    by (simp add: message_def)
  show ?thesis using h unregistered_messages_no_effect[OF h t, of w_ok] by simp
qed

text \<open>
  C10. In every reachable state the \<open>videoTrack\<close> field of the broadcaster session holds,
  if anything, a track of kind \<open>video\<close>, and so does every sender of every peer connection
  (so no track of another kind was ever forwarded to a viewer). The \<open>ontrack\<close> handler run
  on a track of another kind only prints its first log line.
\<close>

theorem non_video_track_ignored:
  assumes "reachable s"
  shows "(\<forall>t. current_track s = Some t \<longrightarrow> kind t = ''video'') \<and>
         (\<forall>p tr t. tr \<in> set (transceivers (pcs s p)) \<longrightarrow> sender_track tr = Some t \<longrightarrow>
            kind t = ''video'') \<and>
         (kind t \<noteq> ''video'' \<longrightarrow> handlers (pcs s p) = BroadcasterHandlers ws \<longrightarrow>
            step w (PcTrack p t) s =
              s\<lparr>console := console s @ [(Success, ''Broadcaster track received: '' @ kind t)]\<rparr>)"
  using reachable_inv[OF assms]
  by (auto simp: server_inv_def video_inv_def tracks_ok_def ontrack_def Let_def log_def)

theorem non_video_track_ignored_witness:
  "reachable (exec w_ok trace_bv init_state) \<and>
   kind T_audio \<noteq> ''video'' \<and>
   handlers (pcs (exec w_ok trace_bv init_state) 0) = BroadcasterHandlers 0 \<and>
   step w_ok (PcTrack 0 T_audio) (exec w_ok trace_bv init_state) =
     (exec w_ok trace_bv init_state)\<lparr>console := console (exec w_ok trace_bv init_state) @
        [(Success, ''Broadcaster track received: audio'')]\<rparr>"
proof -
  have h: "handlers (pcs (exec w_ok trace_bv init_state) 0) = BroadcasterHandlers 0"
    by (simp add: exec_def trace_bv_def eval_defs cong: let_weak_cong)
  have k: "kind T_audio \<noteq> ''video''" by (simp add: T_audio_def)
  show ?thesis
    using reachable_trace_bv h k
      non_video_track_ignored[OF reachable_trace_bv, of T_audio 0 0 w_ok]
    by (simp add: T_audio_def)
qed


text \<open>
  C4. \<open>createViewerPeer\<close> called in a reachable state gives the peer connection it creates
  exactly one transceiver, a send-only video one, whose sender holds the broadcaster's video
  track when there is one and is empty otherwise. The new peer connection carries the handlers
  of this viewer, and \<open>viewerPeers\<close> maps the id to it unless the offer could not be created,
  in which case the id has no entry.
\<close>

theorem viewer_slot_reserved:
  assumes "reachable s"
  shows "transceivers (pcs (createViewerPeer w vid ws s) (next_pc s)) =
           [\<lparr>tr_kind = ''video'', direction = ''sendonly'', sender_track = current_track s\<rparr>] \<and>
         handlers (pcs (createViewerPeer w vid ws s) (next_pc s)) = ViewerHandlers vid ws \<and>
         (map_of (viewerPeers (createViewerPeer w vid ws s)) vid = Some \<lparr>vp_ws = ws, vp_pc = next_pc s\<rparr> \<or>
          map_of (viewerPeers (createViewerPeer w vid ws s)) vid = None)"
proof -
  let ?s2 = "log (''Creating viewer peer: '' @ vid) Info (cleanupViewer w vid s)"
  let ?X = "install_viewer vid ws ?s2"
  have i: "server_inv s" by (rule reachable_inv[OF assms])
  have k: "\<And>t. current_track s = Some t \<Longrightarrow> kind t = ''video''"
    using i by (simp add: server_inv_def video_inv_def)
  have tr: "transceivers (pcs ?X (next_pc s)) =
      [\<lparr>tr_kind = ''video'', direction = ''sendonly'', sender_track = current_track s\<rparr>]"
    using k by (auto simp: install_viewer_sel blank_pc_def split: option.split)
  have h: "handlers (pcs ?X (next_pc s)) = ViewerHandlers vid ws"
    by (simp add: install_viewer_sel blank_pc_def)
  show ?thesis
    using tr h createViewerPeer_entry[OF i, of w vid ws]
    by (auto simp: createViewerPeer_eq sendOfferToViewer_sel)
qed

theorem viewer_slot_reserved_witness:
  "reachable (exec w_ok trace_bt init_state) \<and>
   transceivers (pcs (createViewerPeer w_ok ''v'' 1 (exec w_ok trace_bt init_state)) 1) =
     [\<lparr>tr_kind = ''video'', direction = ''sendonly'', sender_track = Some T_video\<rparr>]"
proof -
  have c: "current_track (exec w_ok trace_bt init_state) = Some T_video"
    by (simp add: exec_def trace_bt_def current_track_def eval_defs cong: let_weak_cong)
  have n: "next_pc (exec w_ok trace_bt init_state) = 1"
    by (simp add: exec_def trace_bt_def eval_defs cong: let_weak_cong)
  show ?thesis
    using reachable_trace_bt viewer_slot_reserved[OF reachable_trace_bt, of w_ok "''v''" 1]
    by (simp add: c n)
qed

text \<open>
  C2. On a connection registered as viewer \<open>vid\<close>: a candidate message that arrives while the
  viewer's peer connection has no remote description (or while the id has no session) is
  appended to \<open>pendingCandidates[vid]\<close>, and nothing else changes; an answer that
  \<open>setRemoteDescription\<close> accepts makes the handler call \<open>addIceCandidate\<close> once for each
  buffered candidate, in buffer order, after which the buffer entry is gone.
\<close>

theorem candidates_buffered_then_drained:
  assumes "role (conns s ws) = Some ''viewer''" and "viewerId (conns s ws) = Some vid"
    and "vid \<noteq> []"
  shows "(m_type m = ''candidate'' \<longrightarrow>
            (\<forall>peer. map_of (viewerPeers s) vid = Some peer \<longrightarrow>
                    remoteDescription (pcs s (vp_pc peer)) = None) \<longrightarrow>
            step w (WsMessage ws (Json m)) s =
              s\<lparr>pendingCandidates := (pendingCandidates s)(vid \<mapsto> pending_of s vid @ [m_candidate m])\<rparr>) \<and>
         (m_type m = ''answer'' \<longrightarrow> map_of (viewerPeers s) vid = Some peer \<longrightarrow>
            setRemoteDescription_res w (pcs s (vp_pc peer)) (m_answer m) = None \<longrightarrow>
            remoteDescription (pcs (step w (WsMessage ws (Json m)) s) (vp_pc peer)) = Some (m_answer m) \<and>
            iceCalls (pcs (step w (WsMessage ws (Json m)) s) (vp_pc peer)) =
              iceCalls (pcs s (vp_pc peer)) @ pending_of s vid \<and>
            pendingCandidates (step w (WsMessage ws (Json m)) s) vid = None \<and>
            ((\<forall>x c. addIceCandidate_res w x c = None) \<longrightarrow>
               iceAdded (pcs (step w (WsMessage ws (Json m)) s) (vp_pc peer)) =
                 iceAdded (pcs s (vp_pc peer)) @ pending_of s vid))"
proof (intro conjI impI)
  assume "m_type m = ''candidate''"
    and "\<forall>peer. map_of (viewerPeers s) vid = Some peer \<longrightarrow> remoteDescription (pcs s (vp_pc peer)) = None"
  then show "step w (WsMessage ws (Json m)) s =
      s\<lparr>pendingCandidates := (pendingCandidates s)(vid \<mapsto> pending_of s vid @ [m_candidate m])\<rparr>"
    using assms
    by (auto simp: on_message_def on_candidate_def push_pending_def split: option.split
        simp del: map_of_eq_Some_iff)
next
  assume a: "m_type m = ''answer''" "map_of (viewerPeers s) vid = Some peer"
    "setRemoteDescription_res w (pcs s (vp_pc peer)) (m_answer m) = None"
  have st: "step w (WsMessage ws (Json m)) s = on_answer w ws m s"
    using a(1) assms(1) by (simp add: on_message_def)
  then show "remoteDescription (pcs (step w (WsMessage ws (Json m)) s) (vp_pc peer)) = Some (m_answer m)"
    and "iceCalls (pcs (step w (WsMessage ws (Json m)) s) (vp_pc peer)) =
              iceCalls (pcs s (vp_pc peer)) @ pending_of s vid"
    and "pendingCandidates (step w (WsMessage ws (Json m)) s) vid = None"
    by (simp_all add: on_answer_ok[OF assms(2) a(2,3)])
  assume "\<forall>x c. addIceCandidate_res w x c = None"
  then have "\<And>x c. (addIceCandidate_res w x c = None) = (\<lambda>_. True) c" by simp
  from fold_tryAdd_added[OF this]
  have "\<And>p cs s. iceAdded (pcs (fold (tryAddIceCandidate w p) cs s) p) = iceAdded (pcs s p) @ cs"
    by simp
  then show "iceAdded (pcs (step w (WsMessage ws (Json m)) s) (vp_pc peer)) =
                 iceAdded (pcs s (vp_pc peer)) @ pending_of s vid"
    unfolding st by (simp add: on_answer_ok[OF assms(2) a(2,3)] drain_pending_def Let_def)
qed

theorem candidates_buffered_then_drained_witness:
  "role (conns (exec w_ok trace_v init_state) 0) = Some ''viewer'' \<and>
   viewerId (conns (exec w_ok trace_v init_state) 0) = Some ''v'' \<and>
   pendingCandidates (step w_ok (WsMessage 0 (Json (message ''candidate'' [] [] ''c1'')))
      (exec w_ok trace_v init_state)) ''v'' = Some [''c1''] \<and>
   iceCalls (pcs (step w_ok (WsMessage 0 (Json (message ''answer'' [] [] ''sdp'')))
      (exec w_ok trace_vc init_state)) 0) = [''bad'', ''good''] \<and>
   pendingCandidates (step w_ok (WsMessage 0 (Json (message ''answer'' [] [] ''sdp'')))
      (exec w_ok trace_vc init_state)) ''v'' = None"
proof -
  let ?X = "exec w_ok trace_v init_state" and ?Y = "exec w_ok trace_vc init_state"
  have x: "role (conns ?X 0) = Some ''viewer''" "viewerId (conns ?X 0) = Some ''v''"
    "map_of (viewerPeers ?X) ''v'' = Some \<lparr>vp_ws = 0, vp_pc = 0\<rparr>"
    "remoteDescription (pcs ?X 0) = None" "pending_of ?X ''v'' = []"
    by (simp_all add: exec_def trace_defs eval_defs cong: let_weak_cong)
  have y: "role (conns ?Y 0) = Some ''viewer''" "viewerId (conns ?Y 0) = Some ''v''"
    "map_of (viewerPeers ?Y) ''v'' = Some \<lparr>vp_ws = 0, vp_pc = 0\<rparr>"
    "iceCalls (pcs ?Y 0) = []" "pending_of ?Y ''v'' = [''bad'', ''good'']"
    by (simp_all add: exec_def trace_defs eval_defs cong: let_weak_cong)
  have v: "''v'' \<noteq> []" by simp
  from candidates_buffered_then_drained[OF x(1) x(2) v,
      where m = "message ''candidate'' [] [] ''c1''" and w = w_ok]
  have 1: "pendingCandidates (step w_ok (WsMessage 0 (Json (message ''candidate'' [] [] ''c1''))) ?X) ''v''
      = Some [''c1'']"
    using x(3,4,5) by (simp add: message_def)
  from candidates_buffered_then_drained[OF y(1) y(2) v,
      where m = "message ''answer'' [] [] ''sdp''" and peer = "\<lparr>vp_ws = 0, vp_pc = 0\<rparr>"
        and w = w_ok]
  have 2: "iceCalls (pcs (step w_ok (WsMessage 0 (Json (message ''answer'' [] [] ''sdp''))) ?Y) 0) =
         [''bad'', ''good''] \<and>
       pendingCandidates (step w_ok (WsMessage 0 (Json (message ''answer'' [] [] ''sdp''))) ?Y) ''v'' = None"
    using y(3,4,5) by (simp add: message_def w_ok_def)
  show ?thesis using x(1,2) 1 2 by simp
qed

text \<open>
  C8, as the claim states it, fails: the \<open>catch\<close> block around \<open>addIceCandidate\<close> in the
  drain is empty, so a candidate that fails leaves no line on the console. Here the viewer's
  buffer holds \<open>bad\<close> (which the library rejects) and \<open>good\<close>; after the answer both were
  tried, \<open>good\<close> was added, and no line of level \<open>error\<close> was printed.
\<close>

theorem drain_error_not_logged:
  "error_lines (exec w_bad trace_drain init_state) = [] \<and>
   iceCalls (pcs (exec w_bad trace_drain init_state) 0) = [''bad'', ''good''] \<and>
   iceAdded (pcs (exec w_bad trace_drain init_state) 0) = [''good'']"
  by (simp add: exec_def error_lines_def trace_defs eval_defs cong: let_weak_cong)

text \<open>
  C8, amended. The drain prints nothing. It calls \<open>addIceCandidate\<close> once for every
  buffered candidate, in order, whatever the outcome of the earlier calls; the candidates the
  library accepts are all added; the buffer entry is removed. With no broadcaster track to
  substitute, the only line the answer handler prints is its success line.
\<close>

theorem drain_swallows_errors:
  "console (drain_pending w vid p s) = console s \<and>
   iceCalls (pcs (drain_pending w vid p s) p) = iceCalls (pcs s p) @ pending_of s vid \<and>
   ((\<forall>x c. (addIceCandidate_res w x c = None) = ok c) \<longrightarrow>
      iceAdded (pcs (drain_pending w vid p s) p) = iceAdded (pcs s p) @ filter ok (pending_of s vid)) \<and>
   pendingCandidates (drain_pending w vid p s) vid = None \<and>
   (viewerId (conns s ws) = Some vid \<longrightarrow> map_of (viewerPeers s) vid = Some peer \<longrightarrow>
    setRemoteDescription_res w (pcs s (vp_pc peer)) (m_answer m) = None \<longrightarrow>
    current_track s = None \<longrightarrow>
      console (on_answer w ws m s) = console s @ [(Success, ''Viewer '' @ vid @ '' answer set'')])"
proof -
  have "viewerId (conns s ws) = Some vid \<Longrightarrow> map_of (viewerPeers s) vid = Some peer \<Longrightarrow>
    setRemoteDescription_res w (pcs s (vp_pc peer)) (m_answer m) = None \<Longrightarrow>
    current_track s = None \<Longrightarrow>
      console (on_answer w ws m s) = console s @ [(Success, ''Viewer '' @ vid @ '' answer set'')]"
    by (simp add: on_answer_ok late_replace_no_track)
  then show ?thesis
    by (simp add: drain_pending_def Let_def fold_tryAdd_added)
qed

theorem drain_swallows_errors_witness:
  "(\<forall>x c. (addIceCandidate_res w_bad x c = None) = (c \<noteq> ''bad'')) \<and>
   pending_of (exec w_bad trace_vc init_state) ''v'' = [''bad'', ''good''] \<and>
   iceCalls (pcs (drain_pending w_bad ''v'' 0 (exec w_bad trace_vc init_state)) 0) = [''bad'', ''good''] \<and>
   iceAdded (pcs (drain_pending w_bad ''v'' 0 (exec w_bad trace_vc init_state)) 0) = [''good''] \<and>
   console (on_answer w_bad 0 (message ''answer'' [] [] ''sdp'') (exec w_bad trace_vc init_state)) =
     console (exec w_bad trace_vc init_state) @ [(Success, ''Viewer v answer set'')]"
proof -
  let ?Y = "exec w_bad trace_vc init_state"
  have ok: "\<forall>x c. (addIceCandidate_res w_bad x c = None) = (c \<noteq> ''bad'')"
    by (simp add: w_bad_def w_ok_def)
  have y: "iceCalls (pcs ?Y 0) = []" "iceAdded (pcs ?Y 0) = []" "pending_of ?Y ''v'' = [''bad'', ''good'']"
    "viewerId (conns ?Y 0) = Some ''v''" "map_of (viewerPeers ?Y) ''v'' = Some \<lparr>vp_ws = 0, vp_pc = 0\<rparr>"
    "current_track ?Y = None"
    by (simp_all add: exec_def current_track_def trace_defs eval_defs cong: let_weak_cong)
  have f: "setRemoteDescription_res w_bad (pcs ?Y (vp_pc \<lparr>vp_ws = 0, vp_pc = 0\<rparr>))
             (m_answer (message ''answer'' [] [] ''sdp'')) = None"
    by (simp add: w_bad_def w_ok_def)
  show ?thesis
    using ok y f drain_swallows_errors[where w = w_bad and vid = "''v''" and p = 0 and s = ?Y
        and ok = "\<lambda>c. c \<noteq> ''bad''" and ws = 0 and peer = "\<lparr>vp_ws = 0, vp_pc = 0\<rparr>"
        and m = "message ''answer'' [] [] ''sdp''"]
    by simp
qed


text \<open>
  C7, as the claim states it, fails for the offer the server creates for a viewer: the
  \<open>catch\<close> block of \<open>sendOfferToViewer\<close> calls \<open>cleanupViewer\<close>. Here \<open>createOffer\<close> throws
  while viewer \<open>v\<close> registers; afterwards \<open>v\<close> has no entry in \<open>viewerPeers\<close> and its peer
  connection is closed.
\<close>

theorem failed_offer_destroys_viewer:
  "map_of (viewerPeers (exec w_nooffer trace_v init_state)) ''v'' = None \<and>
   closed (pcs (exec w_nooffer trace_v init_state) 0) \<and>
   error_lines (exec w_nooffer trace_v init_state) = [(Err, ''createOffer error [v]: boom'')]"
  by (simp add: exec_def error_lines_def trace_defs eval_defs cong: let_weak_cong)

text \<open>
  C7, amended. A failure in the broadcaster's offer handler (at \<open>setRemoteDescription\<close>,
  \<open>createAnswer\<close> or \<open>setLocalDescription\<close>), in the viewer's answer handler or in the
  ICE restart (at \<open>createOffer\<close> or \<open>setLocalDescription\<close>) is logged at level
  \<open>error\<close> and changes nothing else, apart from the remote description already applied to
  the broadcaster's connection when a later call of the offer handler fails: the session stays
  registered and its peer connection stays open. Whatever their outcome, the offer handler, the
  answer handler and the ICE restart never change the viewer registry or close a connection.
  A failure of \<open>createOffer\<close> or \<open>setLocalDescription\<close> for a viewer's initial offer is
  logged and then the viewer's session is destroyed: its entry and its pending candidates are
  removed and its peer connection is closed.
\<close>

theorem negotiation_errors:
  "(broadcasterPeer s = Some b \<longrightarrow>
      broadcasterPeer (on_offer w ws m s) = Some b \<and>
      viewerPeers (on_offer w ws m s) = viewerPeers s \<and>
      (\<forall>p. closed (pcs (on_offer w ws m s) p) = closed (pcs s p)) \<and>
      (setRemoteDescription_res w (pcs s (bp_pc b)) (m_offer m) = Some e \<longrightarrow>
         on_offer w ws m s = log (''Broadcaster offer error: '' @ e) Err s) \<and>
      (setRemoteDescription_res w (pcs s (bp_pc b)) (m_offer m) = None \<longrightarrow>
       createAnswer_res w ((pcs s (bp_pc b))\<lparr>remoteDescription := Some (m_offer m)\<rparr>) = Inl e \<longrightarrow>
         on_offer w ws m s =
           log (''Broadcaster offer error: '' @ e) Err
             (upd_pc (bp_pc b) (\<lambda>x. x\<lparr>remoteDescription := Some (m_offer m)\<rparr>) s)) \<and>
      (setRemoteDescription_res w (pcs s (bp_pc b)) (m_offer m) = None \<longrightarrow>
       createAnswer_res w ((pcs s (bp_pc b))\<lparr>remoteDescription := Some (m_offer m)\<rparr>) = Inr a \<longrightarrow>
       setLocalDescription_res w ((pcs s (bp_pc b))\<lparr>remoteDescription := Some (m_offer m)\<rparr>) a = Some e \<longrightarrow>
         on_offer w ws m s =
           log (''Broadcaster offer error: '' @ e) Err
             (upd_pc (bp_pc b) (\<lambda>x. x\<lparr>remoteDescription := Some (m_offer m)\<rparr>) s))) \<and>
   viewerPeers (on_answer w ws m s) = viewerPeers s \<and>
   (\<forall>p. closed (pcs (on_answer w ws m s) p) = closed (pcs s p)) \<and>
   (viewerId (conns s ws) = Some vid \<longrightarrow> map_of (viewerPeers s) vid = Some peer \<longrightarrow>
    setRemoteDescription_res w (pcs s (vp_pc peer)) (m_answer m) = Some e \<longrightarrow>
      on_answer w ws m s = log (''Viewer answer error ['' @ vid @ '']: '' @ e) Err s) \<and>
   viewerPeers (restartViewerIce w vid s) = viewerPeers s \<and>
   (\<forall>p. closed (pcs (restartViewerIce w vid s) p) = closed (pcs s p)) \<and>
   (map_of (viewerPeers s) vid = Some peer \<longrightarrow>
    (createOffer_res w (pcs s (vp_pc peer)) True = Inl e \<or>
     (\<exists>offer. createOffer_res w (pcs s (vp_pc peer)) True = Inr offer \<and>
        setLocalDescription_res w (pcs s (vp_pc peer)) offer = Some e)) \<longrightarrow>
      restartViewerIce w vid s = log (''ICE restart error ['' @ vid @ '']: '' @ e) Err s) \<and>
   (distinct (map fst (viewerPeers s)) \<longrightarrow> map_of (viewerPeers s) vid = Some peer \<longrightarrow>
    (createOffer_res w (pcs s (vp_pc peer)) False = Inl e \<or>
     (\<exists>offer. createOffer_res w (pcs s (vp_pc peer)) False = Inr offer \<and>
        setLocalDescription_res w (pcs s (vp_pc peer)) offer = Some e)) \<longrightarrow>
      (Err, ''createOffer error ['' @ vid @ '']: '' @ e) \<in> set (console (sendOfferToViewer w vid s)) \<and>
      map_of (viewerPeers (sendOfferToViewer w vid s)) vid = None \<and>
      closed (pcs (sendOfferToViewer w vid s) (vp_pc peer)) \<and>
      pendingCandidates (sendOfferToViewer w vid s) vid = None)"
proof (intro conjI impI allI)
  assume "broadcasterPeer s = Some b"
  then show "broadcasterPeer (on_offer w ws m s) = Some b" by (simp add: on_offer_sel)
next
  show "viewerPeers (on_offer w ws m s) = viewerPeers s" by (simp add: on_offer_sel)
next
  fix p show "closed (pcs (on_offer w ws m s) p) = closed (pcs s p)" by (simp add: on_offer_sel)
next
  assume "broadcasterPeer s = Some b" "setRemoteDescription_res w (pcs s (bp_pc b)) (m_offer m) = Some e"
  then show "on_offer w ws m s = log (''Broadcaster offer error: '' @ e) Err s"
    by (simp add: on_offer_def setRemoteDescription_def)
next
  assume "broadcasterPeer s = Some b" "setRemoteDescription_res w (pcs s (bp_pc b)) (m_offer m) = None"
    "createAnswer_res w ((pcs s (bp_pc b))\<lparr>remoteDescription := Some (m_offer m)\<rparr>) = Inl e"
  then show "on_offer w ws m s =
           log (''Broadcaster offer error: '' @ e) Err
             (upd_pc (bp_pc b) (\<lambda>x. x\<lparr>remoteDescription := Some (m_offer m)\<rparr>) s)"
    by (simp add: on_offer_def setRemoteDescription_def)
next
  assume "broadcasterPeer s = Some b" "setRemoteDescription_res w (pcs s (bp_pc b)) (m_offer m) = None"
    "createAnswer_res w ((pcs s (bp_pc b))\<lparr>remoteDescription := Some (m_offer m)\<rparr>) = Inr a"
    "setLocalDescription_res w ((pcs s (bp_pc b))\<lparr>remoteDescription := Some (m_offer m)\<rparr>) a = Some e"
  then show "on_offer w ws m s =
           log (''Broadcaster offer error: '' @ e) Err
             (upd_pc (bp_pc b) (\<lambda>x. x\<lparr>remoteDescription := Some (m_offer m)\<rparr>) s)"
    by (simp add: on_offer_def setRemoteDescription_def setLocalDescription_def)
next
  show "viewerPeers (on_answer w ws m s) = viewerPeers s"
    using on_answer_same_struct[of s w ws m] by (simp add: same_struct_def)
next
  fix p show "closed (pcs (on_answer w ws m s) p) = closed (pcs s p)"
    using on_answer_same_struct[of s w ws m] by (simp add: same_struct_def)
next
  assume "viewerId (conns s ws) = Some vid" "map_of (viewerPeers s) vid = Some peer"
    "setRemoteDescription_res w (pcs s (vp_pc peer)) (m_answer m) = Some e"
  then show "on_answer w ws m s = log (''Viewer answer error ['' @ vid @ '']: '' @ e) Err s"
    by (simp add: on_answer_def setRemoteDescription_def)
next
  have "benign s (restartViewerIce w vid s)" by simp
  from benignD(3)[OF this] show "viewerPeers (restartViewerIce w vid s) = viewerPeers s" .
next
  fix p
  have "benign s (restartViewerIce w vid s)" by simp
  from benignD(6)[OF this] show "closed (pcs (restartViewerIce w vid s) p) = closed (pcs s p)" .
next
  assume "map_of (viewerPeers s) vid = Some peer"
    "createOffer_res w (pcs s (vp_pc peer)) True = Inl e \<or>
     (\<exists>offer. createOffer_res w (pcs s (vp_pc peer)) True = Inr offer \<and>
        setLocalDescription_res w (pcs s (vp_pc peer)) offer = Some e)"
  then show "restartViewerIce w vid s = log (''ICE restart error ['' @ vid @ '']: '' @ e) Err s"
    by (auto simp: restartViewerIce_def setLocalDescription_def)
next
  assume a: "distinct (map fst (viewerPeers s))" "map_of (viewerPeers s) vid = Some peer"
    "createOffer_res w (pcs s (vp_pc peer)) False = Inl e \<or>
     (\<exists>offer. createOffer_res w (pcs s (vp_pc peer)) False = Inr offer \<and>
        setLocalDescription_res w (pcs s (vp_pc peer)) offer = Some e)"
  let ?s1 = "log (''createOffer error ['' @ vid @ '']: '' @ e) Err s"
  have eq: "sendOfferToViewer w vid s = cleanupViewer w vid ?s1"
    using a(2,3) by (auto simp: sendOfferToViewer_def setLocalDescription_def)
  show "(Err, ''createOffer error ['' @ vid @ '']: '' @ e) \<in> set (console (sendOfferToViewer w vid s))"
    unfolding eq by (rule console_cleanupViewer) simp
  have m1: "map_of (viewerPeers ?s1) vid = Some peer" using a(2) by simp
  have d1: "distinct (map fst (viewerPeers ?s1))" using a(1) by simp
  show "map_of (viewerPeers (sendOfferToViewer w vid s)) vid = None"
    unfolding eq by (rule cleanupViewer_gone[OF d1])
  show "closed (pcs (sendOfferToViewer w vid s) (vp_pc peer))"
    unfolding eq by (rule cleanupViewer_closes(1)[OF m1])
  show "pendingCandidates (sendOfferToViewer w vid s) vid = None"
    unfolding eq using m1 by (simp add: cleanupViewer_pending)
qed

theorem negotiation_errors_witness:
  "broadcasterPeer (exec w_ok trace_bv init_state) = Some \<lparr>bp_ws = 0, bp_pc = 0, videoTrack = None\<rparr> \<and>
   on_offer w_noremote 0 (message ''offer'' [] [] ''sdp'') (exec w_ok trace_bv init_state) =
     log ''Broadcaster offer error: boom'' Err (exec w_ok trace_bv init_state) \<and>
   viewerId (conns (exec w_ok trace_bv init_state) 1) = Some ''v'' \<and>
   map_of (viewerPeers (exec w_ok trace_bv init_state)) ''v'' = Some \<lparr>vp_ws = 1, vp_pc = 1\<rparr> \<and>
   on_answer w_noremote 1 (message ''answer'' [] [] ''sdp'') (exec w_ok trace_bv init_state) =
     log ''Viewer answer error [v]: boom'' Err (exec w_ok trace_bv init_state) \<and>
   restartViewerIce w_nooffer ''v'' (exec w_ok trace_bv init_state) =
     log ''ICE restart error [v]: boom'' Err (exec w_ok trace_bv init_state) \<and>
   map_of (viewerPeers (sendOfferToViewer w_nooffer ''v'' (exec w_ok trace_bv init_state))) ''v'' = None \<and>
   closed (pcs (sendOfferToViewer w_nooffer ''v'' (exec w_ok trace_bv init_state)) 1)"
proof -
  let ?X = "exec w_ok trace_bv init_state"
  have x: "broadcasterPeer ?X = Some \<lparr>bp_ws = 0, bp_pc = 0, videoTrack = None\<rparr>"
    "map_of (viewerPeers ?X) ''v'' = Some \<lparr>vp_ws = 1, vp_pc = 1\<rparr>"
    "distinct (map fst (viewerPeers ?X))"
    "viewerId (conns ?X 1) = Some ''v''"
    by (simp_all add: exec_def trace_defs eval_defs cong: let_weak_cong)
  have f: "setRemoteDescription_res w_noremote (pcs ?X 0) ''sdp'' = Some ''boom''"
    "setRemoteDescription_res w_noremote (pcs ?X 1) ''sdp'' = Some ''boom''"
    "createOffer_res w_nooffer (pcs ?X 1) False = Inl ''boom''"
    "createOffer_res w_nooffer (pcs ?X 1) True = Inl ''boom''"
    by (simp_all add: w_noremote_def w_nooffer_def w_ok_def)
  from negotiation_errors[where s = ?X and b = "\<lparr>bp_ws = 0, bp_pc = 0, videoTrack = None\<rparr>"
      and w = w_noremote and m = "message ''offer'' [] [] ''sdp''" and e = "''boom''" and ws = 0]
  have 1: "on_offer w_noremote 0 (message ''offer'' [] [] ''sdp'') ?X =
     log ''Broadcaster offer error: boom'' Err ?X"
    using x(1) f(1) by (simp add: message_def)
  from negotiation_errors[where s = ?X and vid = "''v''" and peer = "\<lparr>vp_ws = 1, vp_pc = 1\<rparr>"
      and w = w_noremote and m = "message ''answer'' [] [] ''sdp''" and e = "''boom''" and ws = 1]
  have 2: "on_answer w_noremote 1 (message ''answer'' [] [] ''sdp'') ?X =
     log ''Viewer answer error [v]: boom'' Err ?X"
    using x(2,4) f(2) by (simp add: message_def)
  from negotiation_errors[where s = ?X and vid = "''v''" and peer = "\<lparr>vp_ws = 1, vp_pc = 1\<rparr>"
      and w = w_nooffer and e = "''boom''"]
  have 3: "restartViewerIce w_nooffer ''v'' ?X = log ''ICE restart error [v]: boom'' Err ?X \<and>
     map_of (viewerPeers (sendOfferToViewer w_nooffer ''v'' ?X)) ''v'' = None \<and>
     closed (pcs (sendOfferToViewer w_nooffer ''v'' ?X) 1)"
    using x(2,3) f(3,4) by simp
  show ?thesis using x(1,2,4) 1 2 3 by simp
qed

text \<open>
  C5. In a reachable state with a broadcaster session, when a video track arrives on the
  broadcaster's connection and \<open>replaceTrack\<close> succeeds on the connection of a registered
  viewer, that connection still has its single send-only transceiver, now with the track in
  its sender; the handler hands no message to \<open>ws.send\<close> (no offer goes to anyone), the
  roster is unchanged and so are the viewer's local and remote descriptions. This holds
  whether or not the viewer has answered yet.
\<close>

theorem late_track_substituted:
  assumes "reachable s" and "broadcasterPeer s = Some b" and "kind t = ''video''"
    and "map_of (viewerPeers s) vid = Some peer"
    and "replaceTrack_res w (pcs s (vp_pc peer)) t = None"
  shows "\<exists>tr. transceivers (pcs s (vp_pc peer)) = [tr] \<and> direction tr = ''sendonly'' \<and>
           transceivers (pcs (step w (PcTrack (bp_pc b) t) s) (vp_pc peer)) = [tr\<lparr>sender_track := Some t\<rparr>] \<and>
           sent (step w (PcTrack (bp_pc b) t) s) = sent s \<and>
           viewerPeers (step w (PcTrack (bp_pc b) t) s) = viewerPeers s \<and>
           localDescription (pcs (step w (PcTrack (bp_pc b) t) s) (vp_pc peer)) =
             localDescription (pcs s (vp_pc peer)) \<and>
           remoteDescription (pcs (step w (PcTrack (bp_pc b) t) s) (vp_pc peer)) =
             remoteDescription (pcs s (vp_pc peer))"
proof -
  have i: "server_inv s" by (rule reachable_inv[OF assms(1)])
  then have vi: "viewer_inv s" and si: "slot_inv s" and bi: "bcast_inv s" and vd: "video_inv s"
    by (simp_all add: server_inv_def struct_inv_def)
  have hb: "handlers (pcs s (bp_pc b)) = BroadcasterHandlers (bp_ws b)"
    using bi assms(2) by (simp add: bcast_inv_def)
  have hv: "handlers (pcs s (vp_pc peer)) = ViewerHandlers vid (vp_ws peer)"
    using vi assms(4) by (simp add: viewer_inv_def del: map_of_eq_Some_iff)
  have "map direction (transceivers (pcs s (vp_pc peer))) = [''sendonly'']"
    using si hv by (simp add: slot_inv_def)
  then obtain tr where tr: "transceivers (pcs s (vp_pc peer)) = [tr]" and d: "direction tr = ''sendonly''"
    by (cases "transceivers (pcs s (vp_pc peer))") auto
  have "tracks_ok (transceivers (pcs s (vp_pc peer)))" using vd by (simp add: video_inv_def)
  then have sm: "sender_matches tr"
    using tr by (simp add: tracks_ok_def sender_matches_def split: option.split)
  let ?s2 = "(log (''Broadcaster track received: '' @ kind t) Success s)
               \<lparr>broadcasterPeer := Some (b\<lparr>videoTrack := Some t\<rparr>)\<rparr>"
  let ?s3 = "fold (ontrack_viewer w t) (viewerPeers s) ?s2"
  have st: "step w (PcTrack (bp_pc b) t) s = ?s3\<lparr>onended := insert t (onended ?s3)\<rparr>"
    using hb assms(2,3) by (simp add: ontrack_def Let_def)
  have dk: "distinct (map fst (viewerPeers s))" using vi by (simp add: viewer_inv_def)
  have mem: "(vid, peer) \<in> set (viewerPeers s)" using assms(4) by (rule map_of_SomeD)
  have others: "\<forall>e \<in> set (viewerPeers s). fst e \<noteq> vid \<longrightarrow> vp_pc (snd e) \<noteq> vp_pc peer"
  proof (intro ballI impI)
    fix e assume e: "e \<in> set (viewerPeers s)" and ne: "fst e \<noteq> vid"
    have "map_of (viewerPeers s) (fst e) = Some (snd e)"
      using dk e by (cases e) simp
    from viewer_inv_pc_inj[OF vi this assms(4)] ne
    show "vp_pc (snd e) \<noteq> vp_pc peer" by blast
  qed
  have "transceivers (pcs ?s3 (vp_pc peer)) = [tr\<lparr>sender_track := Some t\<rparr>]"
  proof (rule fold_ontrack_viewer_target[OF dk mem others _ _ sm])
    show "replaceTrack_res w (pcs ?s2 (vp_pc peer)) t = None" using assms(5) by (simp add: log_def)
    show "transceivers (pcs ?s2 (vp_pc peer)) = [tr]" using tr by (simp add: log_def)
  qed
  then show ?thesis using tr d unfolding st by (intro exI[of _ tr]) (simp add: log_def)
qed

theorem late_track_substituted_witness:
  "reachable (exec w_ok trace_bva init_state) \<and>
   remoteDescription (pcs (exec w_ok trace_bva init_state) 1) = Some ''sdp'' \<and>
   transceivers (pcs (exec w_ok trace_bva init_state) 1) =
     [\<lparr>tr_kind = ''video'', direction = ''sendonly'', sender_track = None\<rparr>] \<and>
   transceivers (pcs (step w_ok (PcTrack 0 T_video) (exec w_ok trace_bva init_state)) 1) =
     [\<lparr>tr_kind = ''video'', direction = ''sendonly'', sender_track = Some T_video\<rparr>] \<and>
   sent (step w_ok (PcTrack 0 T_video) (exec w_ok trace_bva init_state)) =
     sent (exec w_ok trace_bva init_state)"
proof -
  let ?X = "exec w_ok trace_bva init_state"
  have r: "reachable ?X" by (rule reachable_exec[OF reachable_init run_trace_bva])
  have x: "broadcasterPeer ?X = Some \<lparr>bp_ws = 0, bp_pc = 0, videoTrack = None\<rparr>"
    "map_of (viewerPeers ?X) ''v'' = Some \<lparr>vp_ws = 1, vp_pc = 1\<rparr>"
    "remoteDescription (pcs ?X 1) = Some ''sdp''"
    "transceivers (pcs ?X 1) = [\<lparr>tr_kind = ''video'', direction = ''sendonly'', sender_track = None\<rparr>]"
    by (simp_all add: exec_def trace_defs eval_defs cong: let_weak_cong)
  have k: "kind T_video = ''video''" by (simp add: T_video_def)
  have f: "replaceTrack_res w_ok (pcs ?X (vp_pc \<lparr>vp_ws = 1, vp_pc = 1\<rparr>)) T_video = None"
    by (simp add: w_ok_def)
  from late_track_substituted[OF r x(1) k x(2) f]
  show ?thesis using r x(3,4) by auto
qed

text \<open>
  C1, as the claim states it, fails: \<open>cleanupBroadcaster\<close> does not touch the viewers'
  senders. A broadcaster registers, viewer \<open>v\<close> registers, the broadcaster's track arrives and
  is put into the viewer's sender, a second broadcaster registers. The first broadcaster's
  peer connection is closed and the new session has no track, but the viewer's sender still
  holds the first broadcaster's track.
\<close>

theorem old_track_stays_in_viewer_slot:
  "run w_ok trace_rereg init_state \<noteq> None \<and>
   broadcasterPeer (exec w_ok trace_rereg init_state) = Some \<lparr>bp_ws = 2, bp_pc = 2, videoTrack = None\<rparr> \<and>
   closed (pcs (exec w_ok trace_rereg init_state) 0) \<and>
   map sender_track (transceivers (pcs (exec w_ok trace_rereg init_state) 1)) = [Some T_video]"
  by (simp add: exec_def trace_defs eval_defs cong: let_weak_cong)

text \<open>
  C1, amended. In every reachable state at most one peer connection with broadcaster
  handlers is open, and it is the one \<open>broadcasterPeer\<close> refers to. Registering a
  broadcaster closes the peer connection of the session that was there, makes
  \<open>broadcasterPeer\<close> a new session on a fresh peer connection with one receive-only video
  transceiver and no video track, and clears the timer variable; afterwards the fresh
  connection is the only open broadcaster connection. The viewer roster and every viewer's
  peer connection (its sender and the track in it included) are left as they were.
\<close>

theorem broadcaster_singleton:
  assumes "reachable s"
  shows "(\<forall>p q. live_broadcaster s p \<and> live_broadcaster s q \<longrightarrow> p = q) \<and>
         (\<forall>p. live_broadcaster s p \<longrightarrow> map_option bp_pc (broadcasterPeer s) = Some p) \<and>
         broadcasterPeer (on_register_broadcaster w ws s) =
           Some \<lparr>bp_ws = ws, bp_pc = next_pc s, videoTrack = None\<rparr> \<and>
         broadcasterWs (on_register_broadcaster w ws s) = Some ws \<and>
         broadcasterTimeoutTimer (on_register_broadcaster w ws s) = None \<and>
         (\<forall>t. broadcasterTimeoutTimer s = Some t \<longrightarrow> timers (on_register_broadcaster w ws s) t = None) \<and>
         (\<forall>b. broadcasterPeer s = Some b \<longrightarrow> closed (pcs (on_register_broadcaster w ws s) (bp_pc b))) \<and>
         (\<forall>p. live_broadcaster (on_register_broadcaster w ws s) p \<longleftrightarrow> p = next_pc s) \<and>
         transceivers (pcs (on_register_broadcaster w ws s) (next_pc s)) =
           [\<lparr>tr_kind = ''video'', direction = ''recvonly'', sender_track = None\<rparr>] \<and>
         viewerPeers (on_register_broadcaster w ws s) = viewerPeers s \<and>
         (\<forall>vid peer. map_of (viewerPeers s) vid = Some peer \<longrightarrow>
            pcs (on_register_broadcaster w ws s) (vp_pc peer) = pcs s (vp_pc peer))"
proof -
  have i: "server_inv s" by (rule reachable_inv[OF assms])
  then have vi: "viewer_inv s" and bi: "bcast_inv s" and fi: "fresh_inv s"
    by (simp_all add: server_inv_def struct_inv_def)
  have live: "\<And>p. live_broadcaster s p \<Longrightarrow> map_option bp_pc (broadcasterPeer s) = Some p"
    using bi by (auto simp: live_broadcaster_def bcast_inv_def split: handlers.splits)
  define s3 where "s3 = log ''Broadcaster registering...'' Info
     (case broadcasterTimeoutTimer (set_conn ws (\<lambda>c. c\<lparr>role := Some ''broadcaster''\<rparr>) s) of
        None \<Rightarrow> set_conn ws (\<lambda>c. c\<lparr>role := Some ''broadcaster''\<rparr>) s
      | Some t \<Rightarrow> (clearTimeout t (set_conn ws (\<lambda>c. c\<lparr>role := Some ''broadcaster''\<rparr>) s))
                    \<lparr>broadcasterTimeoutTimer := None\<rparr>)"
  have r: "on_register_broadcaster w ws s =
       safeSend w (Some ws) (RegisteredBroadcaster (length (viewerPeers (createBroadcasterPeer ws s3))))
         (createBroadcasterPeer ws s3)"
    by (simp add: on_register_broadcaster_def Let_def s3_def)
  have s3: "broadcasterPeer s3 = broadcasterPeer s" "viewerPeers s3 = viewerPeers s"
    "pcs s3 = pcs s" "next_pc s3 = next_pc s" "broadcasterTimeoutTimer s3 = None"
    "\<And>t. broadcasterTimeoutTimer s = Some t \<Longrightarrow> timers s3 t = None"
    by (simp_all add: s3_def set_conn_def clearTimeout_def split: option.split)
  have fresh: "handlers (pcs s (next_pc s)) = NoHandlers" using fi by (simp add: fresh_inv_def)
  have bne: "\<And>b. broadcasterPeer s = Some b \<Longrightarrow> bp_pc b \<noteq> next_pc s"
    using bi fresh by (auto simp: bcast_inv_def)
  have vne: "\<And>vid peer. map_of (viewerPeers s) vid = Some peer \<Longrightarrow>
      vp_pc peer \<noteq> next_pc s \<and> (\<forall>b. broadcasterPeer s = Some b \<longrightarrow> vp_pc peer \<noteq> bp_pc b)"
  proof -
    fix vid peer assume m: "map_of (viewerPeers s) vid = Some peer"
    have h: "handlers (pcs s (vp_pc peer)) = ViewerHandlers vid (vp_ws peer)"
      using vi m by (simp add: viewer_inv_def del: map_of_eq_Some_iff)
    show "vp_pc peer \<noteq> next_pc s \<and> (\<forall>b. broadcasterPeer s = Some b \<longrightarrow> vp_pc peer \<noteq> bp_pc b)"
      using h fresh bi by (auto simp: bcast_inv_def)
  qed
  have lv: "\<And>p. live_broadcaster (on_register_broadcaster w ws s) p \<longleftrightarrow> p = next_pc s"
    using bi
    by (auto simp: r live_broadcaster_def createBroadcasterPeer_sel cleanupBroadcaster_pcs s3
        bcast_inv_def blank_pc_def split: handlers.splits option.splits if_splits)
  show ?thesis
  proof (intro conjI allI impI)
    fix p q assume "live_broadcaster s p \<and> live_broadcaster s q"
    then show "p = q" using live[of p] live[of q] by simp
  next
    fix p assume "live_broadcaster s p"
    then show "map_option bp_pc (broadcasterPeer s) = Some p" by (rule live)
  next
    show "broadcasterPeer (on_register_broadcaster w ws s) =
           Some \<lparr>bp_ws = ws, bp_pc = next_pc s, videoTrack = None\<rparr>"
      by (simp add: r createBroadcasterPeer_sel s3)
  next
    show "broadcasterWs (on_register_broadcaster w ws s) = Some ws"
      by (simp add: r createBroadcasterPeer_sel)
  next
    show "broadcasterTimeoutTimer (on_register_broadcaster w ws s) = None"
      by (simp add: r createBroadcasterPeer_sel s3)
  next
    fix t assume "broadcasterTimeoutTimer s = Some t"
    then show "timers (on_register_broadcaster w ws s) t = None"
      by (simp add: r createBroadcasterPeer_sel s3)
  next
    fix b assume "broadcasterPeer s = Some b"
    then show "closed (pcs (on_register_broadcaster w ws s) (bp_pc b))"
      using bne[of b] by (simp add: r createBroadcasterPeer_sel cleanupBroadcaster_pcs s3)
  next
    fix p show "live_broadcaster (on_register_broadcaster w ws s) p \<longleftrightarrow> p = next_pc s" by (rule lv)
  next
    show "transceivers (pcs (on_register_broadcaster w ws s) (next_pc s)) =
           [\<lparr>tr_kind = ''video'', direction = ''recvonly'', sender_track = None\<rparr>]"
      by (simp add: r createBroadcasterPeer_sel s3)
  next
    show "viewerPeers (on_register_broadcaster w ws s) = viewerPeers s"
      by (simp add: r createBroadcasterPeer_sel s3)
  next
    fix vid peer assume "map_of (viewerPeers s) vid = Some peer"
    from vne[OF this]
    show "pcs (on_register_broadcaster w ws s) (vp_pc peer) = pcs s (vp_pc peer)"
      by (auto simp: r createBroadcasterPeer_sel cleanupBroadcaster_pcs s3 split: option.split)
  qed
qed

theorem broadcaster_singleton_witness:
  "reachable (exec w_ok trace_bvt init_state) \<and>
   broadcasterPeer (exec w_ok trace_bvt init_state) = Some \<lparr>bp_ws = 0, bp_pc = 0, videoTrack = Some T_video\<rparr> \<and>
   broadcasterPeer (on_register_broadcaster w_ok 2 (exec w_ok trace_bvt init_state)) =
     Some \<lparr>bp_ws = 2, bp_pc = 2, videoTrack = None\<rparr> \<and>
   closed (pcs (on_register_broadcaster w_ok 2 (exec w_ok trace_bvt init_state)) 0) \<and>
   pcs (on_register_broadcaster w_ok 2 (exec w_ok trace_bvt init_state)) 1 =
     pcs (exec w_ok trace_bvt init_state) 1"
proof -
  let ?X = "exec w_ok trace_bvt init_state"
  have r: "reachable ?X" by (rule reachable_exec[OF reachable_init run_trace_bvt])
  have x: "broadcasterPeer ?X = Some \<lparr>bp_ws = 0, bp_pc = 0, videoTrack = Some T_video\<rparr>"
    "map_of (viewerPeers ?X) ''v'' = Some \<lparr>vp_ws = 1, vp_pc = 1\<rparr>"
    "next_pc ?X = 2"
    by (simp_all add: exec_def trace_defs eval_defs cong: let_weak_cong)
  from broadcaster_singleton[OF r, of w_ok 2]
  have "broadcasterPeer (on_register_broadcaster w_ok 2 ?X) =
           Some \<lparr>bp_ws = 2, bp_pc = next_pc ?X, videoTrack = None\<rparr>"
    and "\<forall>b. broadcasterPeer ?X = Some b \<longrightarrow> closed (pcs (on_register_broadcaster w_ok 2 ?X) (bp_pc b))"
    and v: "\<forall>vid peer. map_of (viewerPeers ?X) vid = Some peer \<longrightarrow>
            pcs (on_register_broadcaster w_ok 2 ?X) (vp_pc peer) = pcs ?X (vp_pc peer)"
    by blast+
  then show ?thesis using r x v[rule_format, OF x(2)] by simp
qed



text \<open>
  C6 at the input where the code departs from the claim. After \<open>trace_two_closes\<close> a
  broadcaster is registered and the timer variable is \<open>null\<close>, yet the timeout armed by the
  first close is still pending: the second close overwrote the variable without clearing it.
  No \<open>broadcasterDisconnected\<close> was sent so far. When that timeout fires, the viewer on
  socket 2 is sent \<open>broadcasterDisconnected\<close> with \<open>permanent: false\<close>.
\<close>

theorem orphaned_timer_notifies_after_reregistration:
  "run w_ok trace_orphan_timer init_state \<noteq> None \<and>
   timers (exec w_ok trace_two_closes init_state) 0 = Some BROADCASTER_TIMEOUT \<and>
   broadcasterTimeoutTimer (exec w_ok trace_two_closes init_state) = None \<and>
   broadcasterPeer (exec w_ok trace_two_closes init_state) =
     Some \<lparr>bp_ws = 3, bp_pc = 3, videoTrack = None\<rparr> \<and>
   disconnect_notices (exec w_ok trace_two_closes init_state) = [] \<and>
   disconnect_notices (exec w_ok trace_orphan_timer init_state) = [(2, BroadcasterDisconnected False)]"
  by (simp add: exec_def disconnect_notices_def trace_defs eval_defs cong: let_weak_cong)

end
